theory Spec2Isabelle
  imports Main "HOL-Library.Word"
begin

unbundle bit_operations_syntax

section \<open>Python values and exceptions\<close>

text \<open>
  The option values handed to \<open>MakeBlastDB\<close> are arbitrary Python objects; the ones the
  program stores and tests are \<open>None\<close>, booleans, integers and strings.
\<close>

datatype pyval = PyNone | PyBool bool | PyInt int | PyStr string

text \<open>Python's truth test, as used by \<open>if self.parse_seqids\<close> and \<open>if self.decompress\<close>.\<close>

fun truthy :: "pyval \<Rightarrow> bool" where
  "truthy PyNone = False"
| "truthy (PyBool b) = b"
| "truthy (PyInt n) = (n \<noteq> 0)"
| "truthy (PyStr s) = (s \<noteq> [])"

text \<open>
  The exceptions that reach the modelled code. \<open>ValueError\<close> carries its message,
  \<open>URLError\<close> the text of its reason, \<open>SystemExit\<close> the status passed to \<open>sys.exit\<close>.
  \<open>NotModelled\<close> is no Python exception: the reference decompressor below returns it on
  input that lies outside the part of the gzip format it covers.
\<close>

datatype error =
    ValueError string
  | ZlibError
  | StopIteration
  | TypeError
  | AttributeError
  | IndexError
  | URLError string
  | UnboundLocalError
  | SystemExit int
  | NotModelled

type_synonym byte = "8 word"

section \<open>The child process\<close>

text \<open>
  What the program does to the child it spawned, in order: writes to and flushes of its
  standard input, the close of that pipe, and the wait for its termination.
\<close>

datatype event = Write "byte list" | Flush | Close | Wait

record process =
  args :: "pyval list"
  events :: "event list"

text \<open>The bytes the child has received on its standard input.\<close>

fun written :: "event list \<Rightarrow> byte list" where
  "written [] = []"
| "written (Write bs # es) = bs @ written es"
| "written (e # es) = written es"

text \<open>
  The state outside the object: the argument lists of the processes spawned so far and
  the lines written to the standard error stream.
\<close>

record world =
  spawned :: "pyval list list"
  stderr :: "string list"

section \<open>MakeBlastDB: options and command line\<close>

text \<open>
  The object's attributes. \<open>input\<close> is the byte source, modelled by the bytes it still
  holds; \<open>in_arg\<close> stands for the attribute \<open>_in\<close>.
\<close>

record MakeBlastDB =
  executable :: string
  input :: "byte list"
  in_arg :: pyval
  out :: pyval
  title :: pyval
  dbtype :: pyval
  parse_seqids :: pyval
  proc :: "process option"
  decompress :: pyval
  chunk_size :: pyval

definition set_defaults :: "MakeBlastDB \<Rightarrow> MakeBlastDB" where
  "set_defaults self =
     self\<lparr>in_arg := PyStr ''-'', out := PyNone, title := PyNone, dbtype := PyNone,
          parse_seqids := PyBool False, proc := None, decompress := PyBool False,
          chunk_size := PyInt (16 * 1024)\<rparr>"

text \<open>One turn of the loop of \<open>set_options\<close>: the chain of comparisons on the key.\<close>

definition set_option :: "MakeBlastDB \<Rightarrow> string \<Rightarrow> pyval \<Rightarrow> error + MakeBlastDB" where
  "set_option self k v =
     (if k = ''input'' then Inr (self\<lparr>in_arg := v\<rparr>)
      else if k = ''out'' then Inr (self\<lparr>out := v\<rparr>)
      else if k = ''title'' then Inr (self\<lparr>title := v\<rparr>)
      else if k = ''dbtype'' then Inr (self\<lparr>dbtype := v\<rparr>)
      else if k = ''parse_seqids'' then Inr (self\<lparr>parse_seqids := v\<rparr>)
      else if k = ''decompress'' then Inr (self\<lparr>decompress := v\<rparr>)
      else if k = ''chunk_size'' then Inr (self\<lparr>chunk_size := v\<rparr>)
      else Inl (ValueError (''unhandeled option: '' @ k)))"

text \<open>
  \<open>set_options\<close> walks the keyword dictionary in its iteration order (here the order of
  the association list) and stops at the first key it does not know. The object keeps
  the attributes set before that key, so it is returned beside the exception.
\<close>

fun set_options :: "MakeBlastDB \<Rightarrow> (string \<times> pyval) list \<Rightarrow> error option \<times> MakeBlastDB" where
  "set_options self [] = (None, self)"
| "set_options self ((k, v) # kwargs) =
     (case set_option self k v of
        Inl e \<Rightarrow> (Some e, self)
      | Inr self' \<Rightarrow> set_options self' kwargs)"

text \<open>
  The constructor; \<open>system\<close> is what \<open>platform.system()\<close> returns. The attributes not
  yet assigned when \<open>set_defaults\<close> runs have no value of their own in the model.
\<close>

definition MakeBlastDB_init ::
  "string \<Rightarrow> byte list \<Rightarrow> (string \<times> pyval) list \<Rightarrow> error option \<times> MakeBlastDB" where
  "MakeBlastDB_init system inp kwargs =
     (let exe = ''makeblastdb'';
          exe = (if system = ''Windows'' then exe @ ''.exe'' else exe);
          self = \<lparr>executable = exe, input = [], in_arg = PyNone, out = PyNone,
                  title = PyNone, dbtype = PyNone, parse_seqids = PyNone, proc = None,
                  decompress = PyNone, chunk_size = PyNone\<rparr>;
          self = set_defaults self;
          self = self\<lparr>input := inp\<rparr>
      in set_options self kwargs)"

definition get_command_args :: "MakeBlastDB \<Rightarrow> pyval list" where
  "get_command_args self =
     (let args = [PyStr (executable self), PyStr ''-in'', in_arg self];
          args = (if out self \<noteq> PyNone then args @ [PyStr ''-out'', out self] else args);
          args = (if title self \<noteq> PyNone then args @ [PyStr ''-title'', title self] else args);
          args = (if dbtype self \<noteq> PyNone then args @ [PyStr ''-dbtype'', dbtype self] else args);
          args = (if truthy (parse_seqids self) then args @ [PyStr ''-parse_seqids''] else args)
      in args)"

text \<open>
  \<open>Popen\<close> with \<open>stdin=PIPE\<close>: the spawn is recorded in the world and the new process,
  with nothing done to it yet, becomes \<open>self.proc\<close>.
\<close>

definition open_process :: "MakeBlastDB \<Rightarrow> world \<Rightarrow> MakeBlastDB \<times> world" where
  "open_process self w =
     (let a = get_command_args self
      in (self\<lparr>proc := Some \<lparr>args = a, events = []\<rparr>\<rparr>, w\<lparr>spawned := spawned w @ [a]\<rparr>))"

section \<open>Byte sources and the decompressor\<close>

text \<open>
  \<open>read(n)\<close> on a byte source that still holds \<open>s\<close>: the chunk returned and what is
  left. A negative size, and \<open>None\<close>, read everything; a boolean is the integer it
  stands for; a string is no size.
\<close>

fun stream_read :: "pyval \<Rightarrow> byte list \<Rightarrow> error + (byte list \<times> byte list)" where
  "stream_read (PyInt n) s =
     (if n < 0 then Inr (s, []) else Inr (take (nat n) s, drop (nat n) s))"
| "stream_read (PyBool b) s =
     (if b then Inr (take 1 s, drop 1 s) else Inr ([], s))"
| "stream_read PyNone s = Inr (s, [])"
| "stream_read (PyStr v) s = Inl TypeError"

text \<open>
  \<open>zlib\<close> is a library the repository calls, not part of it, so the decompressor is a
  parameter of the reader: a machine \<open>step\<close> that takes its state and one input byte and
  returns the bytes this byte releases and the next state, or raises. \<open>zfeed\<close> is one
  call of the decompression object's \<open>decompress\<close> method on a chunk; an exception
  discards what the chunk had produced before it.
\<close>

fun zfeed :: "('z \<Rightarrow> byte \<Rightarrow> error + (byte list \<times> 'z)) \<Rightarrow> 'z \<Rightarrow> byte list
    \<Rightarrow> error + (byte list \<times> 'z)" where
  "zfeed step z [] = Inr ([], z)"
| "zfeed step z (b # bs) =
     (case step z b of
        Inl e \<Rightarrow> Inl e
      | Inr (o1, z1) \<Rightarrow>
          (case zfeed step z1 bs of
             Inl e \<Rightarrow> Inl e
           | Inr (o2, z2) \<Rightarrow> Inr (o1 @ o2, z2)))"

section \<open>StreamGunZip\<close>

text \<open>
  \<open>dobj\<close> is the state of the decompression object whose \<open>decompress\<close> method the
  attribute \<open>d\<close> holds; \<open>stream\<close> is the wrapped byte source.
\<close>

record 'z StreamGunZip =
  dobj :: 'z
  stream :: "byte list"
  sgz_chunk_size :: pyval

definition StreamGunZip_init :: "'z \<Rightarrow> byte list \<Rightarrow> pyval \<Rightarrow> 'z StreamGunZip" where
  "StreamGunZip_init z0 compressed_f cs =
     \<lparr>dobj = z0, stream = compressed_f, sgz_chunk_size = cs\<rparr>"

text \<open>
  \<open>decompress(chunk_size)\<close>. The object is returned beside the result: the bytes read
  are gone from the source also when the decompressor raises on them.
\<close>

definition StreamGunZip_decompress ::
  "('z \<Rightarrow> byte \<Rightarrow> error + (byte list \<times> 'z)) \<Rightarrow> pyval \<Rightarrow> 'z StreamGunZip
    \<Rightarrow> (error + byte list) \<times> 'z StreamGunZip" where
  "StreamGunZip_decompress step cs g =
     (case (if cs = PyNone then Inr (stream g, []) else stream_read cs (stream g)) of
        Inl e \<Rightarrow> (Inl e, g)
      | Inr (raw, rest) \<Rightarrow>
          (case zfeed step (dobj g) raw of
             Inl e \<Rightarrow> (Inl e, g\<lparr>stream := rest\<rparr>)
           | Inr (data, z') \<Rightarrow> (Inr data, g\<lparr>dobj := z', stream := rest\<rparr>)))"

definition StreamGunZip_next ::
  "('z \<Rightarrow> byte \<Rightarrow> error + (byte list \<times> 'z)) \<Rightarrow> 'z StreamGunZip
    \<Rightarrow> (error + byte list) \<times> 'z StreamGunZip" where
  "StreamGunZip_next step g =
     (case StreamGunZip_decompress step (sgz_chunk_size g) g of
        (Inl e, g') \<Rightarrow> (Inl e, g')
      | (Inr data, g') \<Rightarrow> if data = [] then (Inl StopIteration, g') else (Inr data, g'))"

text \<open>
  A caller that invokes \<open>decompress(cs)\<close> a given number of times in a row and collects
  the chunks, stopping at the first exception.
\<close>

fun decompress_calls ::
  "('z \<Rightarrow> byte \<Rightarrow> error + (byte list \<times> 'z)) \<Rightarrow> pyval \<Rightarrow> nat \<Rightarrow> 'z StreamGunZip
    \<Rightarrow> (error + byte list list) \<times> 'z StreamGunZip" where
  "decompress_calls step cs 0 g = (Inr [], g)"
| "decompress_calls step cs (Suc k) g =
     (case StreamGunZip_decompress step cs g of
        (Inl e, g') \<Rightarrow> (Inl e, g')
      | (Inr data, g') \<Rightarrow>
          (case decompress_calls step cs k g' of
             (Inl e, g'') \<Rightarrow> (Inl e, g'')
           | (Inr ds, g'') \<Rightarrow> (Inr (data # ds), g'')))"

section \<open>The pump: MakeBlastDB.communicate\<close>

text \<open>
  The callable \<open>_read\<close>: either the \<open>read\<close> method of the input or the \<open>decompress\<close>
  method of one \<open>StreamGunZip\<close> wrapped around it, with the chunk size bound.
\<close>

datatype 'z reader = ReadRaw "byte list" | ReadGunzip "'z StreamGunZip"

fun reader_stream :: "'z reader \<Rightarrow> byte list" where
  "reader_stream (ReadRaw s) = s"
| "reader_stream (ReadGunzip g) = stream g"

fun reader_call ::
  "('z \<Rightarrow> byte \<Rightarrow> error + (byte list \<times> 'z)) \<Rightarrow> pyval \<Rightarrow> 'z reader
    \<Rightarrow> (error + byte list) \<times> 'z reader" where
  "reader_call step cs (ReadRaw s) =
     (case stream_read cs s of
        Inl e \<Rightarrow> (Inl e, ReadRaw s)
      | Inr (data, rest) \<Rightarrow> (Inr data, ReadRaw rest))"
| "reader_call step cs (ReadGunzip g) =
     (case StreamGunZip_decompress step cs g of (r, g') \<Rightarrow> (r, ReadGunzip g'))"

text \<open>
  The \<open>while data\<close> loop. \<open>select\<close> has no timeout and watches the child's input pipe
  alone, so it returns once the pipe is writable and the write always takes place. The
  result is the exception that left the loop, if any, with the reader and the process as
  the loop left them.
\<close>

function pump_loop ::
  "('z \<Rightarrow> byte \<Rightarrow> error + (byte list \<times> 'z)) \<Rightarrow> pyval \<Rightarrow> 'z reader \<Rightarrow> byte list \<Rightarrow> process
    \<Rightarrow> error option \<times> 'z reader \<times> process" where
  "pump_loop step cs rd data p =
     (if data = [] then (None, rd, p)
      else
        (let p' = p\<lparr>events := events p @ [Write data, Flush]\<rparr>
         in case reader_call step cs rd of
              (Inl e, rd') \<Rightarrow>
                if e = StopIteration then (None, rd', p') else (Some e, rd', p')
            | (Inr data', rd') \<Rightarrow> pump_loop step cs rd' data' p'))"
  by pat_completeness auto
termination
  apply (relation "measure (\<lambda>(step, cs, rd, data, p).
         length (reader_stream rd) + (if data = [] then 0 else 1))")
   apply simp
  subgoal premises prems for step cs rd data p x y z
  proof -
    have nz: "raw \<noteq> []" if "zfeed step z0 raw = Inr (b, z1)" "b \<noteq> []" for z0 raw b z1
      using that by (cases raw) auto
    show ?thesis
      using prems
      by (cases rd; cases cs)
         (auto simp: StreamGunZip_decompress_def dest!: nz
               split: if_splits sum.splits prod.splits)
  qed
  done

text \<open>\<open>self.proc.stdin.close()\<close> followed by \<open>return self.proc.wait()\<close>.\<close>

definition close_and_wait ::
  "(pyval list \<Rightarrow> byte list \<Rightarrow> int) \<Rightarrow> MakeBlastDB \<Rightarrow> world \<Rightarrow> (error + int) \<times> MakeBlastDB \<times> world" where
  "close_and_wait child self w =
     (case proc self of
        None \<Rightarrow> (Inl AttributeError, self, w)
      | Some p \<Rightarrow>
          (let p = p\<lparr>events := events p @ [Close]\<rparr>;
               p = p\<lparr>events := events p @ [Wait]\<rparr>
           in (Inr (child (args p) (written (events p))), self\<lparr>proc := Some p\<rparr>, w)))"

text \<open>
  \<open>communicate\<close>. \<open>z0\<close> is the state of a fresh \<open>zlib.decompressobj(zlib.MAX_WBITS|32)\<close>;
  \<open>child\<close> gives the status the child exits with, from its arguments and the bytes it
  received. An exception of the first read or of the loop leaves the method at once.
\<close>

definition communicate ::
  "('z \<Rightarrow> byte \<Rightarrow> error + (byte list \<times> 'z)) \<Rightarrow> 'z \<Rightarrow> (pyval list \<Rightarrow> byte list \<Rightarrow> int)
    \<Rightarrow> MakeBlastDB \<Rightarrow> world \<Rightarrow> (error + int) \<times> MakeBlastDB \<times> world" where
  "communicate step z0 child self w =
     (let rd = (if truthy (decompress self)
                then ReadGunzip (StreamGunZip_init z0 (input self) (PyInt 1024))
                else ReadRaw (input self))
      in case reader_call step (chunk_size self) rd of
           (Inl e, rd') \<Rightarrow> (Inl e, self\<lparr>input := reader_stream rd'\<rparr>, w)
         | (Inr data, rd') \<Rightarrow>
             (let self = self\<lparr>input := reader_stream rd'\<rparr>
              in if data = [] then
                   close_and_wait child self
                     (w\<lparr>stderr := stderr w @ [''MakeBlastDB: null input'' @ [CHR 0x0A]]\<rparr>)
                 else
                   (case proc self of
                      None \<Rightarrow> (Inl AttributeError, self, w)
                    | Some p \<Rightarrow>
                        (case pump_loop step (chunk_size self) rd' data p of
                           (Some e, rd'', p') \<Rightarrow>
                             (Inl e, self\<lparr>input := reader_stream rd'', proc := Some p'\<rparr>, w)
                         | (None, rd'', p') \<Rightarrow>
                             close_and_wait child
                               (self\<lparr>input := reader_stream rd'', proc := Some p'\<rparr>) w))))"

definition MakeBlastDB_make ::
  "('z \<Rightarrow> byte \<Rightarrow> error + (byte list \<times> 'z)) \<Rightarrow> 'z \<Rightarrow> (pyval list \<Rightarrow> byte list \<Rightarrow> int)
    \<Rightarrow> MakeBlastDB \<Rightarrow> (string \<times> pyval) list \<Rightarrow> world \<Rightarrow> (error + int) \<times> MakeBlastDB \<times> world" where
  "MakeBlastDB_make step z0 child self kwargs w =
     (case set_options self kwargs of
        (Some e, self') \<Rightarrow> (Inl e, self', w)
      | (None, self') \<Rightarrow>
          (case open_process self' w of
             (self'', w') \<Rightarrow> communicate step z0 child self'' w'))"

text \<open>
  The function \<open>make\<close> of the module \<open>blastdb\<close>: construct the compiler, then call its
  method \<open>make\<close>.
\<close>

definition blastdb_make ::
  "('z \<Rightarrow> byte \<Rightarrow> error + (byte list \<times> 'z)) \<Rightarrow> 'z \<Rightarrow> (pyval list \<Rightarrow> byte list \<Rightarrow> int)
    \<Rightarrow> string \<Rightarrow> byte list \<Rightarrow> (string \<times> pyval) list \<Rightarrow> world
    \<Rightarrow> (error + int) \<times> MakeBlastDB \<times> world" where
  "blastdb_make step z0 child system inp kwargs w =
     (case MakeBlastDB_init system inp kwargs of
        (Some e, compiler) \<Rightarrow> (Inl e, compiler, w)
      | (None, compiler) \<Rightarrow> MakeBlastDB_make step z0 child compiler [] w)"

section \<open>A reference decompressor for gzip\<close>

text \<open>
  An instance of the decompressor parameter, written after the format's definition
  (RFC 1952 for the member, RFC 1951 for the blocks) and the library's documented
  behaviour, for gzip members without optional header fields whose blocks are stored
  ones (what the library itself emits at compression level 0). Input that needs another
  part of the format (the zlib wrapper, optional header fields, Huffman-coded blocks) is
  answered with \<open>NotModelled\<close>; every \<open>ZlibError\<close> below is one the library raises at
  that very byte. Once the member has ended, the object produces nothing more and
  collects further input in \<open>unused_data\<close>.
\<close>

datatype zphase =
    ZHead "byte list"
  | ZBlock
  | ZStoredLen bool "byte list"
  | ZStored bool nat
  | ZCheck "byte list"
  | ZLength "byte list"
  | ZDone

record zstate =
  phase :: zphase
  crc :: "32 word"
  total :: nat
  unused_data :: "byte list"

text \<open>A little-endian number from its bytes.\<close>

definition le_word :: "byte list \<Rightarrow> 32 word" where
  "le_word bs = foldr (\<lambda>b acc. ucast b OR push_bit 8 acc) bs 0"

text \<open>CRC-32 (reflected polynomial \<open>0xEDB88320\<close>), one input byte at a time.\<close>

fun crc_shift :: "nat \<Rightarrow> 32 word \<Rightarrow> 32 word" where
  "crc_shift 0 c = c"
| "crc_shift (Suc k) c =
     crc_shift k (if bit c 0 then drop_bit 1 c XOR 0xEDB88320 else drop_bit 1 c)"

definition crc32_byte :: "32 word \<Rightarrow> byte \<Rightarrow> 32 word" where
  "crc32_byte c b = crc_shift 8 (c XOR ucast b)"

text \<open>
  The header, given the bytes received so far: the magic number is judged at the second
  byte, method and flags at the fourth, and the tenth byte ends the fixed header.
\<close>

definition gunzip_head :: "byte list \<Rightarrow> error + zphase" where
  "gunzip_head hs =
     (if length hs = 2 then
        (if hs = [0x1f, 0x8b] then Inr (ZHead hs)
         else if (unat (hs ! 0) * 256 + unat (hs ! 1)) mod 31 \<noteq> 0 then Inl ZlibError
         else if (hs ! 0) AND 0x0f \<noteq> 8 then Inl ZlibError
         else Inl NotModelled)
      else if length hs = 4 then
        (if hs ! 2 \<noteq> 8 then Inl ZlibError
         else if (hs ! 3) AND 0xe0 \<noteq> 0 then Inl ZlibError
         else if (hs ! 3) AND 0x1e \<noteq> 0 then Inl NotModelled
         else Inr (ZHead hs))
      else if length hs = 10 then Inr ZBlock
      else Inr (ZHead hs))"

definition after_block :: "bool \<Rightarrow> zphase" where
  "after_block fin = (if fin then ZCheck [] else ZBlock)"

definition gunzip_step :: "zstate \<Rightarrow> byte \<Rightarrow> error + (byte list \<times> zstate)" where
  "gunzip_step z b =
     (case phase z of
        ZHead hs \<Rightarrow>
          (case gunzip_head (hs @ [b]) of
             Inl e \<Rightarrow> Inl e
           | Inr ph \<Rightarrow> Inr ([], z\<lparr>phase := ph\<rparr>))
      | ZBlock \<Rightarrow>
          (if drop_bit 1 b AND 3 = 0 then Inr ([], z\<lparr>phase := ZStoredLen (bit b 0) []\<rparr>)
           else if drop_bit 1 b AND 3 = 3 then Inl ZlibError
           else Inl NotModelled)
      | ZStoredLen fin ls \<Rightarrow>
          (let ls' = ls @ [b]
           in if length ls' < 4 then Inr ([], z\<lparr>phase := ZStoredLen fin ls'\<rparr>)
              else if le_word (take 2 ls') \<noteq> le_word (drop 2 ls') XOR 0xffff then Inl ZlibError
              else if le_word (take 2 ls') = 0 then Inr ([], z\<lparr>phase := after_block fin\<rparr>)
              else Inr ([], z\<lparr>phase := ZStored fin (unat (le_word (take 2 ls')))\<rparr>))
      | ZStored fin k \<Rightarrow>
          Inr ([b], z\<lparr>phase := (if k \<le> 1 then after_block fin else ZStored fin (k - 1)),
                      crc := crc32_byte (crc z) b,
                      total := total z + 1\<rparr>)
      | ZCheck cs \<Rightarrow>
          (let cs' = cs @ [b]
           in if length cs' < 4 then Inr ([], z\<lparr>phase := ZCheck cs'\<rparr>)
              else if le_word cs' = NOT (crc z) then Inr ([], z\<lparr>phase := ZLength []\<rparr>)
              else Inl ZlibError)
      | ZLength ls \<Rightarrow>
          (let ls' = ls @ [b]
           in if length ls' < 4 then Inr ([], z\<lparr>phase := ZLength ls'\<rparr>)
              else if unat (le_word ls') = total z mod 2 ^ 32 then Inr ([], z\<lparr>phase := ZDone\<rparr>)
              else Inl ZlibError)
      | ZDone \<Rightarrow> Inr ([], z\<lparr>unused_data := unused_data z @ [b]\<rparr>))"

text \<open>The state of a fresh decompression object.\<close>

definition zlib_decompressobj :: zstate where
  "zlib_decompressobj = \<lparr>phase = ZHead [], crc = 0xFFFFFFFF, total = 0, unused_data = []\<rparr>"

text \<open>
  The gzip file of the one-byte payload \<open>a\<close>, as the library writes it at level 0, and
  that of the payload \<open>b\<close>.
\<close>

definition gz_a :: "byte list" where
  "gz_a = [31, 139, 8, 0, 0, 0, 0, 0, 4, 3, 1, 1, 0, 254, 255, 97, 67, 190, 183, 232, 1, 0, 0, 0]"

definition gz_b :: "byte list" where
  "gz_b = [31, 139, 8, 0, 0, 0, 0, 0, 4, 3, 1, 1, 0, 254, 255, 98, 249, 239, 190, 113, 1, 0, 0, 0]"

text \<open>The first of these files with the first byte of its checksum changed.\<close>

definition gz_a_bad :: "byte list" where
  "gz_a_bad = [31, 139, 8, 0, 0, 0, 0, 0, 4, 3, 1, 1, 0, 254, 255, 97, 66, 190, 183, 232, 1, 0, 0, 0]"

section \<open>The batch driver's download loop\<close>

text \<open>\<open>sub in s\<close> on strings.\<close>

fun contains :: "string \<Rightarrow> string \<Rightarrow> bool" where
  "contains sub [] = (sub = [])"
| "contains sub (c # cs) = (take (length sub) (c # cs) = sub \<or> contains sub cs)"

text \<open>\<open>str(e)\<close> of a \<open>URLError\<close> with the given reason.\<close>

definition str_URLError :: "string \<Rightarrow> string" where
  "str_URLError reason = ''<urlopen error '' @ reason @ ''>''"

text \<open>
  The \<open>while counter < 3\<close> loop of \<open>main\<close> for one assembly. \<open>dl i\<close> is what the call
  number \<open>i\<close> of \<open>download_and_make\<close> for this assembly does: return a status or raise.
  \<open>r\<close> is the local variable of that name, \<open>None\<close> while it is unbound. The result gives
  the exception that left the loop, if any, the variable \<open>r\<close>, and the number of calls
  made.
\<close>

function retry_loop ::
  "(nat \<Rightarrow> error + int) \<Rightarrow> nat \<Rightarrow> nat \<Rightarrow> int option \<Rightarrow> error option \<times> int option \<times> nat" where
  "retry_loop dl calls counter r =
     (if counter < 3 then
        (case dl calls of
           Inr v \<Rightarrow> (None, Some v, Suc calls)
         | Inl e \<Rightarrow>
             (case e of
                URLError reason \<Rightarrow>
                  if contains ''[Errno 110]'' (str_URLError reason)
                  then retry_loop dl (Suc calls) (counter + 1) r
                  else (Some e, r, Suc calls)
              | _ \<Rightarrow> (Some e, r, Suc calls)))
      else (None, r, calls))"
  by pat_completeness auto
termination
  by (relation "measure (\<lambda>(dl, calls, counter, r). 3 - counter)") auto

text \<open>
  The body of \<open>for assembly in assemblies\<close> from the loop on: the test of \<open>r\<close> and the
  line written to the standard output. \<open>r\<close> is what an earlier assembly left in the
  variable. Beside the result stand \<open>r\<close> and the number of download calls.
\<close>

definition download_assembly ::
  "(nat \<Rightarrow> error + int) \<Rightarrow> int option \<Rightarrow> string \<Rightarrow> string
    \<Rightarrow> (error + string) \<times> int option \<times> nat" where
  "download_assembly dl r species_name path =
     (case retry_loop dl 0 0 r of
        (Some e, r', n) \<Rightarrow> (Inl e, r', n)
      | (None, r', n) \<Rightarrow>
          (case r' of
             None \<Rightarrow> (Inl UnboundLocalError, r', n)
           | Some v \<Rightarrow>
               if v \<noteq> 0 then (Inl (SystemExit v), r', n)
               else (Inr (species_name @ [CHR 0x09] @ path @ [CHR 0x0A]), r', n)))"

section \<open>AssemblyReference\<close>

text \<open>\<open>os.path.split(p)[1]\<close>: what follows the last slash.\<close>

definition path_tail :: "string \<Rightarrow> string" where
  "path_tail p = rev (takeWhile (\<lambda>c. c \<noteq> CHR ''/'') (rev p))"

text \<open>\<open>os.path.join(a, b)\<close> for two components.\<close>

definition path_join :: "string \<Rightarrow> string \<Rightarrow> string" where
  "path_join a b =
     (if take 1 b = ''/'' then b
      else if a = [] \<or> last a = CHR ''/'' then a @ b
      else a @ ''/'' @ b)"

text \<open>\<open>s.split(sep, 1)\<close> for a separator of one character.\<close>

definition split_once :: "char \<Rightarrow> string \<Rightarrow> string list" where
  "split_once sep s =
     (if sep \<in> set s
      then [takeWhile (\<lambda>c. c \<noteq> sep) s, tl (dropWhile (\<lambda>c. c \<noteq> sep) s)]
      else [s])"

text \<open>Indexing a list with a non-negative index.\<close>

definition list_item :: "'a list \<Rightarrow> nat \<Rightarrow> error + 'a" where
  "list_item xs i = (if i < length xs then Inr (xs ! i) else Inl IndexError)"

definition startswith :: "string \<Rightarrow> string \<Rightarrow> bool" where
  "startswith s pre = (take (length pre) s = pre)"

record AssemblyReference =
  species :: string
  name :: string
  filename :: string
  filepath :: string
  version :: string
  assembly_type :: string

definition AssemblyReference_init :: "string \<Rightarrow> string \<Rightarrow> error + AssemblyReference" where
  "AssemblyReference_init sp assembly_ftppath =
     (let nm = path_tail assembly_ftppath;
          fn = nm @ ''_genomic.fna.gz'';
          fp = path_join assembly_ftppath fn
      in case list_item (split_once CHR ''_'' nm) 1 of
           Inl e \<Rightarrow> Inl e
         | Inr v \<Rightarrow>
             Inr \<lparr>species = sp, name = nm, filename = fn, filepath = fp, version = v,
                  assembly_type = (if startswith nm ''GCA'' then ''GenBank'' else ''RefSeq'')\<rparr>)"

section \<open>Options and command line: the theorems\<close>

lemma set_option_unknown:
  "k \<notin> {''input'', ''out'', ''title'', ''dbtype'', ''parse_seqids'', ''decompress'', ''chunk_size''}
   \<Longrightarrow> set_option self k v = Inl (ValueError (''unhandeled option: '' @ k))"
  unfolding set_option_def by simp

lemma set_option_known:
  "k \<in> {''input'', ''out'', ''title'', ''dbtype'', ''parse_seqids'', ''decompress'', ''chunk_size''}
   \<Longrightarrow> \<exists>s1. set_option self k v = Inr s1"
  unfolding set_option_def by (elim insertE emptyE; simp)

text \<open>
  The loop of \<open>set_options\<close> passes over the keys of a set \<open>R\<close> that \<open>set_option\<close>
  accepts and stops with the exception at the first key outside it.
\<close>

lemma set_options_stops:
  assumes known: "\<And>s k v. k \<in> R \<Longrightarrow> \<exists>s1. set_option s k v = Inr s1"
    and unknown: "\<And>s k v. k \<notin> R \<Longrightarrow> set_option s k v = Inl (ValueError (''unhandeled option: '' @ k))"
  shows "\<exists>k \<in> fst ` set kwargs. k \<notin> R
   \<Longrightarrow> \<exists>k self'. k \<in> fst ` set kwargs \<and> k \<notin> R
        \<and> set_options self kwargs = (Some (ValueError (''unhandeled option: '' @ k)), self')"
proof (induction kwargs arbitrary: self)
  case Nil
  then show ?case by simp
next
  case (Cons kv kwargs)
  obtain k v where kv: "kv = (k, v)" by (cases kv)
  show ?case
  proof (cases "k \<in> R")
    case True
    then obtain s1 where s1: "set_option self k v = Inr s1"
      using known by blast
    from True Cons.prems kv have "\<exists>k \<in> fst ` set kwargs. k \<notin> R"
      by auto
    from Cons.IH [OF this, of s1] obtain k' self' where
      k': "k' \<in> fst ` set kwargs" "k' \<notin> R"
        "set_options s1 kwargs = (Some (ValueError (''unhandeled option: '' @ k')), self')"
      by blast
    have "set_options self (kv # kwargs) = (Some (ValueError (''unhandeled option: '' @ k')), self')"
      unfolding kv by (simp add: s1 k'(3))
    moreover have "k' \<in> fst ` set (kv # kwargs)" using k'(1) by simp
    ultimately show ?thesis using k'(2) by blast
  next
    case False
    hence "set_option self k v = Inl (ValueError (''unhandeled option: '' @ k))"
      by (rule unknown)
    hence "set_options self (kv # kwargs) = (Some (ValueError (''unhandeled option: '' @ k)), self)"
      unfolding kv by simp
    moreover have "k \<in> fst ` set (kv # kwargs)" unfolding kv by simp
    ultimately show ?thesis using False by blast
  qed
qed

lemma set_options_unknown:
  assumes "\<exists>k \<in> fst ` set kwargs. k \<notin> {''input'', ''out'', ''title'', ''dbtype'',
             ''parse_seqids'', ''decompress'', ''chunk_size''}"
  shows "\<exists>k self'. k \<in> fst ` set kwargs
        \<and> k \<notin> {''input'', ''out'', ''title'', ''dbtype'', ''parse_seqids'', ''decompress'',
                 ''chunk_size''}
        \<and> set_options self kwargs = (Some (ValueError (''unhandeled option: '' @ k)), self')"
proof (rule set_options_stops)
  let ?R = "{''input'', ''out'', ''title'', ''dbtype'', ''parse_seqids'', ''decompress'',
             ''chunk_size''}"
  show "\<exists>s1. set_option s k v = Inr s1" if "k \<in> ?R" for s k v
    using that by (rule set_option_known)
  show "set_option s k v = Inl (ValueError (''unhandeled option: '' @ k))" if "k \<notin> ?R" for s k v
    using that by (rule set_option_unknown)
  show "\<exists>k \<in> fst ` set kwargs. k \<notin> ?R"
    by (rule assms)
qed

lemma init_example:
  "MakeBlastDB_init ''Linux'' []
     [(''dbtype'', PyStr ''nucl''), (''parse_seqids'', PyBool True), (''out'', PyStr ''x''),
      (''title'', PyStr ''x'')]
   = (None, \<lparr>executable = ''makeblastdb'', input = [], in_arg = PyStr ''-'', out = PyStr ''x'',
        title = PyStr ''x'', dbtype = PyStr ''nucl'', parse_seqids = PyBool True, proc = None,
        decompress = PyBool False, chunk_size = PyInt 16384\<rparr>)"
  by (simp add: MakeBlastDB_init_def set_defaults_def set_option_def Let_def)

text \<open>
  Claim C6. An object whose attributes are those of the configuration
  \<open>{dbtype: "nucl", parse_seqids: true, out: "x", title: "x"}\<close>, with the default input
  \<open>"-"\<close>, has the argument list \<open>[executable, "-in", "-", "-out", "x", "-title", "x",
  "-dbtype", "nucl", "-parse_seqids"]\<close>, in that order. For every object the list is the
  executable, \<open>-in\<close> and the input, followed by one segment for each of \<open>out\<close>, \<open>title\<close>,
  \<open>dbtype\<close> and \<open>parse_seqids\<close>, and the segment of an option that is unset is empty.
\<close>

theorem get_command_args_order:
  "(in_arg self = PyStr ''-'' \<and> out self = PyStr ''x'' \<and> title self = PyStr ''x''
      \<and> dbtype self = PyStr ''nucl'' \<and> parse_seqids self = PyBool True
     \<longrightarrow> get_command_args self =
           [PyStr (executable self), PyStr ''-in'', PyStr ''-'', PyStr ''-out'', PyStr ''x'',
            PyStr ''-title'', PyStr ''x'', PyStr ''-dbtype'', PyStr ''nucl'',
            PyStr ''-parse_seqids''])
   \<and> get_command_args self =
       [PyStr (executable self), PyStr ''-in'', in_arg self]
       @ (if out self = PyNone then [] else [PyStr ''-out'', out self])
       @ (if title self = PyNone then [] else [PyStr ''-title'', title self])
       @ (if dbtype self = PyNone then [] else [PyStr ''-dbtype'', dbtype self])
       @ (if truthy (parse_seqids self) then [PyStr ''-parse_seqids''] else [])"
  by (simp add: get_command_args_def Let_def)

text \<open>
  The object the constructor builds from that configuration on a system other than
  Windows satisfies the hypothesis, and its argument list is the one of the claim.
\<close>

theorem get_command_args_order_witness:
  "get_command_args (snd (MakeBlastDB_init ''Linux'' []
     [(''dbtype'', PyStr ''nucl''), (''parse_seqids'', PyBool True), (''out'', PyStr ''x''),
      (''title'', PyStr ''x'')]))
   = [PyStr ''makeblastdb'', PyStr ''-in'', PyStr ''-'', PyStr ''-out'', PyStr ''x'',
      PyStr ''-title'', PyStr ''x'', PyStr ''-dbtype'', PyStr ''nucl'', PyStr ''-parse_seqids'']"
  using get_command_args_order [of "snd (MakeBlastDB_init ''Linux'' []
     [(''dbtype'', PyStr ''nucl''), (''parse_seqids'', PyBool True), (''out'', PyStr ''x''),
      (''title'', PyStr ''x'')])"]
  by (simp add: init_example)

text \<open>
  Claim C7. When the keyword dictionary holds a key outside \<open>input\<close>, \<open>out\<close>, \<open>title\<close>,
  \<open>dbtype\<close>, \<open>parse_seqids\<close>, \<open>decompress\<close>, \<open>chunk_size\<close>, \<open>set_options\<close> raises the
  \<open>ValueError\<close> that names such a key; the method \<open>make\<close> and the function \<open>make\<close> then
  raise it too and leave the world as it was: no process has been spawned.
\<close>

theorem unknown_option_fails_before_spawn:
  assumes "\<exists>k \<in> fst ` set kwargs. k \<notin> {''input'', ''out'', ''title'', ''dbtype'',
             ''parse_seqids'', ''decompress'', ''chunk_size''}"
  shows "(\<exists>k. k \<in> fst ` set kwargs
       \<and> k \<notin> {''input'', ''out'', ''title'', ''dbtype'', ''parse_seqids'', ''decompress'',
                ''chunk_size''}
       \<and> fst (set_options self kwargs) = Some (ValueError (''unhandeled option: '' @ k))
       \<and> (\<exists>self'. MakeBlastDB_make step z0 child self kwargs w
                    = (Inl (ValueError (''unhandeled option: '' @ k)), self', w)))
     \<and> (\<exists>k. k \<in> fst ` set kwargs
       \<and> k \<notin> {''input'', ''out'', ''title'', ''dbtype'', ''parse_seqids'', ''decompress'',
                ''chunk_size''}
       \<and> (\<exists>compiler. blastdb_make step z0 child system inp kwargs w
                    = (Inl (ValueError (''unhandeled option: '' @ k)), compiler, w)))"
proof (rule conjI)
  from set_options_unknown [OF assms, of self] obtain k self' where
    k: "k \<in> fst ` set kwargs"
       "k \<notin> {''input'', ''out'', ''title'', ''dbtype'', ''parse_seqids'', ''decompress'',
                ''chunk_size''}"
       "set_options self kwargs = (Some (ValueError (''unhandeled option: '' @ k)), self')"
    by blast
  have "MakeBlastDB_make step z0 child self kwargs w
          = (Inl (ValueError (''unhandeled option: '' @ k)), self', w)"
    by (simp add: MakeBlastDB_make_def k(3))
  moreover have "fst (set_options self kwargs) = Some (ValueError (''unhandeled option: '' @ k))"
    by (simp only: k(3) fst_conv)
  ultimately show "\<exists>k. k \<in> fst ` set kwargs
       \<and> k \<notin> {''input'', ''out'', ''title'', ''dbtype'', ''parse_seqids'', ''decompress'',
                ''chunk_size''}
       \<and> fst (set_options self kwargs) = Some (ValueError (''unhandeled option: '' @ k))
       \<and> (\<exists>self'. MakeBlastDB_make step z0 child self kwargs w
                    = (Inl (ValueError (''unhandeled option: '' @ k)), self', w))"
    using k(1,2) by blast
next
  obtain s0 where s0: "MakeBlastDB_init system inp kwargs = set_options s0 kwargs"
    by (simp add: MakeBlastDB_init_def Let_def)
  from set_options_unknown [OF assms, of s0] obtain k compiler where
    k: "k \<in> fst ` set kwargs"
       "k \<notin> {''input'', ''out'', ''title'', ''dbtype'', ''parse_seqids'', ''decompress'',
                ''chunk_size''}"
       "set_options s0 kwargs = (Some (ValueError (''unhandeled option: '' @ k)), compiler)"
    by blast
  have "blastdb_make step z0 child system inp kwargs w
          = (Inl (ValueError (''unhandeled option: '' @ k)), compiler, w)"
    by (simp add: blastdb_make_def s0 k(3))
  thus "\<exists>k. k \<in> fst ` set kwargs
       \<and> k \<notin> {''input'', ''out'', ''title'', ''dbtype'', ''parse_seqids'', ''decompress'',
                ''chunk_size''}
       \<and> (\<exists>compiler. blastdb_make step z0 child system inp kwargs w
                    = (Inl (ValueError (''unhandeled option: '' @ k)), compiler, w))"
    using k(1,2) by blast
qed

text \<open>
  The hypothesis holds for the dictionary \<open>{out: "x", bogus: 1}\<close>, and the function
  \<open>make\<close> then fails in a world that has seen no spawn and still has seen none.
\<close>

theorem unknown_option_fails_before_spawn_witness:
  "(\<exists>k \<in> fst ` set [(''out'', PyStr ''x''), (''bogus'', PyInt 1)].
       k \<notin> {''input'', ''out'', ''title'', ''dbtype'', ''parse_seqids'', ''decompress'',
             ''chunk_size''})
   \<and> (\<exists>k. k \<in> fst ` set [(''out'', PyStr ''x''), (''bogus'', PyInt 1)]
       \<and> (\<exists>compiler. blastdb_make gunzip_step zlib_decompressobj (\<lambda>a bs. 0) ''Linux'' []
              [(''out'', PyStr ''x''), (''bogus'', PyInt 1)] \<lparr>spawned = [], stderr = []\<rparr>
            = (Inl (ValueError (''unhandeled option: '' @ k)), compiler,
               \<lparr>spawned = [], stderr = []\<rparr>)))"
proof -
  have h: "\<exists>k \<in> fst ` set [(''out'', PyStr ''x''), (''bogus'', PyInt 1)].
       k \<notin> {''input'', ''out'', ''title'', ''dbtype'', ''parse_seqids'', ''decompress'',
             ''chunk_size''}"
    by simp
  from unknown_option_fails_before_spawn [OF h, of "snd (MakeBlastDB_init ''Linux'' [] [])"
      gunzip_step zlib_decompressobj "\<lambda>a bs. 0" "\<lparr>spawned = [], stderr = []\<rparr>" "''Linux''" "[]"]
  have "\<exists>k. k \<in> fst ` set [(''out'', PyStr ''x''), (''bogus'', PyInt 1)]
       \<and> (\<exists>compiler. blastdb_make gunzip_step zlib_decompressobj (\<lambda>a bs. 0) ''Linux'' []
              [(''out'', PyStr ''x''), (''bogus'', PyInt 1)] \<lparr>spawned = [], stderr = []\<rparr>
            = (Inl (ValueError (''unhandeled option: '' @ k)), compiler,
               \<lparr>spawned = [], stderr = []\<rparr>))"
    by blast
  with h show ?thesis by (rule conjI)
qed

text \<open>
  Claim C8, as stated, fails: a chunk size of zero and a negative one are accepted by
  the constructor and stored, with no exception.
\<close>

theorem chunk_size_nonpositive_accepted:
  "fst (MakeBlastDB_init ''Linux'' [] [(''chunk_size'', PyInt 0)]) = None
   \<and> chunk_size (snd (MakeBlastDB_init ''Linux'' [] [(''chunk_size'', PyInt 0)])) = PyInt 0
   \<and> fst (MakeBlastDB_init ''Linux'' [] [(''chunk_size'', PyInt (- 5))]) = None
   \<and> chunk_size (snd (MakeBlastDB_init ''Linux'' [] [(''chunk_size'', PyInt (- 5))])) = PyInt (- 5)"
  by (simp add: MakeBlastDB_init_def set_defaults_def set_option_def Let_def)

text \<open>
  Claim C8, amended. The chunk size of an object constructed without options is 16384,
  and \<open>set_options\<close> stores whatever value is supplied under \<open>chunk_size\<close>, without any
  check and without an exception.
\<close>

theorem chunk_size_default_unchecked:
  "fst (MakeBlastDB_init system inp []) = None
   \<and> chunk_size (snd (MakeBlastDB_init system inp [])) = PyInt 16384
   \<and> set_options self [(''chunk_size'', v)] = (None, self\<lparr>chunk_size := v\<rparr>)"
  by (simp add: MakeBlastDB_init_def set_defaults_def set_option_def Let_def)

section \<open>AssemblyReference: the theorems\<close>

lemma path_tail_segment:
  "CHR ''/'' \<notin> set (path_tail p)
   \<and> (\<exists>hd_part. p = hd_part @ path_tail p \<and> (hd_part = [] \<or> last hd_part = CHR ''/''))"
proof -
  let ?P = "\<lambda>c. c \<noteq> CHR ''/''"
  have a: "CHR ''/'' \<notin> set (path_tail p)"
    unfolding path_tail_def using set_takeWhileD [of "CHR ''/''" ?P "rev p"] by auto
  have "p = rev (dropWhile ?P (rev p)) @ rev (takeWhile ?P (rev p))"
    by (metis rev_append rev_rev_ident takeWhile_dropWhile_id)
  hence b: "p = rev (dropWhile ?P (rev p)) @ path_tail p"
    unfolding path_tail_def .
  have c: "rev (dropWhile ?P (rev p)) = [] \<or> last (rev (dropWhile ?P (rev p))) = CHR ''/''"
  proof (cases "dropWhile ?P (rev p) = []")
    case True
    then show ?thesis by simp
  next
    case False
    from hd_dropWhile [OF False] have "hd (dropWhile ?P (rev p)) = CHR ''/''" by simp
    with False show ?thesis by (simp add: last_rev)
  qed
  from a b c show ?thesis by blast
qed

lemma split_once_version:
  assumes "sep \<in> set s"
  shows "list_item (split_once sep s) 1 = Inr (tl (dropWhile (\<lambda>c. c \<noteq> sep) s))"
    and "s = takeWhile (\<lambda>c. c \<noteq> sep) s @ [sep] @ tl (dropWhile (\<lambda>c. c \<noteq> sep) s)"
    and "sep \<notin> set (takeWhile (\<lambda>c. c \<noteq> sep) s)"
proof -
  let ?P = "\<lambda>c. c \<noteq> sep"
  show "list_item (split_once sep s) 1 = Inr (tl (dropWhile ?P s))"
    using assms by (simp add: split_once_def list_item_def)
  from assms have ne: "dropWhile ?P s \<noteq> []" by (simp add: dropWhile_eq_Nil_conv)
  from hd_dropWhile [OF ne] have "hd (dropWhile ?P s) = sep" by simp
  with ne have "dropWhile ?P s = sep # tl (dropWhile ?P s)"
    by (metis list.collapse)
  moreover have "s = takeWhile ?P s @ dropWhile ?P s" by simp
  ultimately show "s = takeWhile ?P s @ [sep] @ tl (dropWhile ?P s)" by simp
  show "sep \<notin> set (takeWhile ?P s)"
    using set_takeWhileD [of sep ?P s] by auto
qed

text \<open>
  Claim C10, amended. For every path whose last segment contains an underscore, the
  constructor succeeds and derives: the name as the last segment of the path (what
  follows its last slash), the file name as the name with \<open>_genomic.fna.gz\<close> appended,
  the version as what follows the first underscore of the name, and the type as
  \<open>GenBank\<close> when the name starts with \<open>GCA\<close> and \<open>RefSeq\<close> otherwise.
\<close>

theorem assembly_reference_fields:
  assumes "CHR ''_'' \<in> set (path_tail p)"
  shows "\<exists>r. AssemblyReference_init sp p = Inr r
       \<and> species r = sp
       \<and> name r = path_tail p
       \<and> CHR ''/'' \<notin> set (name r)
       \<and> (\<exists>hd_part. p = hd_part @ name r \<and> (hd_part = [] \<or> last hd_part = CHR ''/''))
       \<and> filename r = name r @ ''_genomic.fna.gz''
       \<and> (\<exists>pre. name r = pre @ ''_'' @ version r \<and> CHR ''_'' \<notin> set pre)
       \<and> assembly_type r = (if take 3 (name r) = ''GCA'' then ''GenBank'' else ''RefSeq'')"
proof -
  let ?v = "tl (dropWhile (\<lambda>c. c \<noteq> CHR ''_'') (path_tail p))"
  let ?r = "\<lparr>species = sp, name = path_tail p, filename = path_tail p @ ''_genomic.fna.gz'',
             filepath = path_join p (path_tail p @ ''_genomic.fna.gz''), version = ?v,
             assembly_type = (if startswith (path_tail p) ''GCA'' then ''GenBank'' else ''RefSeq'')\<rparr>"
  note sv = split_once_version [OF assms]
  have i: "AssemblyReference_init sp p = Inr ?r"
    unfolding AssemblyReference_init_def Let_def sv(1) by simp
  have v: "\<exists>pre. name ?r = pre @ ''_'' @ version ?r \<and> CHR ''_'' \<notin> set pre"
    using sv(2,3) by (intro exI [of _ "takeWhile (\<lambda>c. c \<noteq> CHR ''_'') (path_tail p)"]) simp
  have t: "assembly_type ?r = (if take 3 (name ?r) = ''GCA'' then ''GenBank'' else ''RefSeq'')"
    by (simp add: startswith_def numeral_3_eq_3)
  from path_tail_segment [of p]
  have s: "CHR ''/'' \<notin> set (name ?r)"
     "\<exists>hd_part. p = hd_part @ name ?r \<and> (hd_part = [] \<or> last hd_part = CHR ''/'')"
    by simp_all
  show ?thesis
    by (rule exI [of _ ?r]) (use i v t s in simp)
qed

text \<open>A GenBank path satisfies the hypothesis and yields the fields of the claim.\<close>

theorem assembly_reference_fields_witness:
  "CHR ''_'' \<in> set (path_tail ''ftp://host/all/GCA_000001405.28_GRCh38.p13'')
   \<and> (\<exists>r. AssemblyReference_init ''Homo sapiens'' ''ftp://host/all/GCA_000001405.28_GRCh38.p13'' = Inr r
        \<and> name r = ''GCA_000001405.28_GRCh38.p13''
        \<and> filename r = ''GCA_000001405.28_GRCh38.p13_genomic.fna.gz''
        \<and> assembly_type r = ''GenBank'')"
proof -
  have t: "path_tail ''ftp://host/all/GCA_000001405.28_GRCh38.p13'' = ''GCA_000001405.28_GRCh38.p13''"
    by (simp add: path_tail_def)
  have h: "CHR ''_'' \<in> set (path_tail ''ftp://host/all/GCA_000001405.28_GRCh38.p13'')"
    unfolding t by simp
  from assembly_reference_fields [OF h, of "''Homo sapiens''"] obtain r where
    r: "AssemblyReference_init ''Homo sapiens'' ''ftp://host/all/GCA_000001405.28_GRCh38.p13'' = Inr r"
       "name r = path_tail ''ftp://host/all/GCA_000001405.28_GRCh38.p13''"
       "filename r = name r @ ''_genomic.fna.gz''"
       "assembly_type r = (if take 3 (name r) = ''GCA'' then ''GenBank'' else ''RefSeq'')"
    by blast
  from r(2) t have n: "name r = ''GCA_000001405.28_GRCh38.p13''" by simp
  have "filename r = ''GCA_000001405.28_GRCh38.p13_genomic.fna.gz''"
    using r(3) n by simp
  moreover have "assembly_type r = ''GenBank''"
    using r(4) n by simp
  ultimately show ?thesis using h r(1) n by blast
qed

text \<open>
  Claim C10, as stated for every path, fails: when the last segment holds no underscore,
  \<open>name.split("_", 1)[1]\<close> raises \<open>IndexError\<close> and no reference is built.
\<close>

theorem assembly_name_without_underscore_raises:
  "AssemblyReference_init ''Homo sapiens'' ''ftp://host/all/GCF000001405'' = Inl IndexError"
  by (simp add: AssemblyReference_init_def path_tail_def split_once_def list_item_def Let_def)

section \<open>The download loop: what happens after the third failure\<close>

text \<open>
  Claim C9. When every call of \<open>download_and_make\<close> raises the \<open>URLError\<close> of
  \<open>[Errno 110]\<close>, three calls are made and the loop ends with \<open>counter = 3\<close>; the
  exception is not raised again. If an earlier assembly left \<open>r = 0\<close>, the driver
  writes the line that reports this assembly as compiled; if \<open>r\<close> is still unbound, the
  test \<open>r != 0\<close> raises \<open>UnboundLocalError\<close>. In neither case does the \<open>URLError\<close>
  reach the caller.
\<close>

theorem retry_exhausted_error_not_propagated:
  "download_assembly (\<lambda>i. Inl (URLError ''[Errno 110] Connection timed out'')) (Some 0)
       ''Homo sapiens'' ''ftp://host/all/GCF_1.1/GCF_1.1_genomic.fna.gz''
     = (Inr (''Homo sapiens'' @ [CHR 0x09] @ ''ftp://host/all/GCF_1.1/GCF_1.1_genomic.fna.gz''
             @ [CHR 0x0A]), Some 0, 3)
   \<and> download_assembly (\<lambda>i. Inl (URLError ''[Errno 110] Connection timed out'')) None
       ''Homo sapiens'' ''ftp://host/all/GCF_1.1/GCF_1.1_genomic.fna.gz''
     = (Inl UnboundLocalError, None, 3)"
  by (simp add: download_assembly_def str_URLError_def)

section \<open>The pump: the theorems\<close>

declare pump_loop.simps [simp del]

lemma zfeed_append:
  "zfeed step z (as @ bs) =
     (case zfeed step z as of
        Inl e \<Rightarrow> Inl e
      | Inr (o1, z1) \<Rightarrow>
          (case zfeed step z1 bs of
             Inl e \<Rightarrow> Inl e
           | Inr (o2, z2) \<Rightarrow> Inr (o1 @ o2, z2)))"
  by (induction as arbitrary: z) (auto split: sum.splits prod.splits)

lemma written_append: "written (es @ fs) = written es @ written fs"
  by (induction es rule: written.induct) auto

lemma pump_loop_done: "pump_loop step cs rd [] p = (None, rd, p)"
  by (subst pump_loop.simps) simp

lemma pump_loop_more:
  "data \<noteq> [] \<Longrightarrow>
   pump_loop step cs rd data p =
     (case reader_call step cs rd of
        (Inl e, rd') \<Rightarrow>
          if e = StopIteration
          then (None, rd', p\<lparr>events := events p @ [Write data, Flush]\<rparr>)
          else (Some e, rd', p\<lparr>events := events p @ [Write data, Flush]\<rparr>)
      | (Inr data', rd') \<Rightarrow>
          pump_loop step cs rd' data' (p\<lparr>events := events p @ [Write data, Flush]\<rparr>))"
  by (subst pump_loop.simps) (simp add: Let_def)

lemma pump_loop_events:
  "pump_loop step cs rd data p = (r, rd', p')
   \<Longrightarrow> \<exists>ws. p' = p\<lparr>events := events p @ ws\<rparr> \<and> Close \<notin> set ws \<and> Wait \<notin> set ws"
proof (induction step cs rd data p arbitrary: r rd' p' rule: pump_loop.induct)
  case (1 step cs rd data p)
  show ?case
  proof (cases "data = []")
    case True
    with "1.prems" have "p' = p"
      by (simp add: pump_loop_done)
    then show ?thesis by (intro exI [of _ "[]"]) simp
  next
    case False
    let ?p1 = "p\<lparr>events := events p @ [Write data, Flush]\<rparr>"
    obtain res rd1 where rc: "reader_call step cs rd = (res, rd1)"
      by (cases "reader_call step cs rd")
    show ?thesis
    proof (cases res)
      case (Inl e)
      with False rc "1.prems" have "p' = ?p1"
        by (simp add: pump_loop_more split: if_splits)
      then show ?thesis by (intro exI [of _ "[Write data, Flush]"]) simp
    next
      case (Inr data')
      with False rc "1.prems" have run: "pump_loop step cs rd1 data' ?p1 = (r, rd', p')"
        by (simp add: pump_loop_more)
      have "\<exists>ws. p' = ?p1\<lparr>events := events ?p1 @ ws\<rparr> \<and> Close \<notin> set ws \<and> Wait \<notin> set ws"
        using "1.IH" False rc Inr run by fastforce
      then obtain ws where "p' = ?p1\<lparr>events := events ?p1 @ ws\<rparr>" "Close \<notin> set ws" "Wait \<notin> set ws"
        by blast
      then show ?thesis by (intro exI [of _ "[Write data, Flush] @ ws"]) simp
    qed
  qed
qed


lemma first_read:
  assumes "stream_read (chunk_size self) (input self) = Inr (raw, rest)"
  shows "reader_call step (chunk_size self)
           (if truthy (decompress self)
            then ReadGunzip (StreamGunZip_init z0 (input self) (PyInt 1024))
            else ReadRaw (input self))
         = (if truthy (decompress self)
            then (case zfeed step z0 raw of
                    Inl e \<Rightarrow> (Inl e, ReadGunzip \<lparr>dobj = z0, stream = rest, sgz_chunk_size = PyInt 1024\<rparr>)
                  | Inr (data, z') \<Rightarrow>
                      (Inr data, ReadGunzip \<lparr>dobj = z', stream = rest, sgz_chunk_size = PyInt 1024\<rparr>))
            else (Inr raw, ReadRaw rest))"
proof (cases "chunk_size self = PyNone")
  case True
  with assms have "raw = input self" "rest = []" by simp_all
  with True show ?thesis
    by (simp add: StreamGunZip_decompress_def StreamGunZip_init_def split: sum.splits)
next
  case False
  with assms show ?thesis
    by (simp add: StreamGunZip_decompress_def StreamGunZip_init_def split: sum.splits)
qed

text \<open>
  Claim C5. When the first read of the input returns no data, \<open>communicate\<close> writes
  nothing to the child: it closes the pipe, waits, and returns the status the child
  exits with (after the message \<open>MakeBlastDB: null input\<close> on the standard error
  stream). This holds with and without \<open>decompress\<close>, for every decompressor.
\<close>

theorem empty_input_closes_and_waits:
  assumes "proc self = Some p"
    and "stream_read (chunk_size self) (input self) = Inr ([], rest)"
  shows "communicate step z0 child self w =
           (Inr (child (args p) (written (events p))),
            self\<lparr>input := rest, proc := Some (p\<lparr>events := events p @ [Close, Wait]\<rparr>)\<rparr>,
            w\<lparr>stderr := stderr w @ [''MakeBlastDB: null input'' @ [CHR 0x0A]]\<rparr>)"
  unfolding communicate_def Let_def first_read [OF assms(2)]
  using assms(1) by (simp add: close_and_wait_def written_append)

lemma blastdb_make_unfold:
  "MakeBlastDB_init system inp kwargs = (None, c) \<Longrightarrow>
   blastdb_make step z0 child system inp kwargs w =
     communicate step z0 child (c\<lparr>proc := Some \<lparr>args = get_command_args c, events = []\<rparr>\<rparr>)
       (w\<lparr>spawned := spawned w @ [get_command_args c]\<rparr>)"
  by (simp add: blastdb_make_def MakeBlastDB_make_def open_process_def Let_def)

lemma init_decompress:
  "MakeBlastDB_init ''Linux'' inp [(''decompress'', PyBool True)]
   = (None, \<lparr>executable = ''makeblastdb'', input = inp, in_arg = PyStr ''-'', out = PyNone,
        title = PyNone, dbtype = PyNone, parse_seqids = PyBool False, proc = None,
        decompress = PyBool True, chunk_size = PyInt 16384\<rparr>)"
  by (simp add: MakeBlastDB_init_def set_defaults_def set_option_def Let_def)

text \<open>
  The function \<open>make\<close> on an empty input: the only events of the child are the close
  and the wait, and the status returned is the one of a child that received nothing.
\<close>

theorem empty_input_closes_and_waits_witness:
  "blastdb_make gunzip_step zlib_decompressobj (\<lambda>a bs. int (length bs)) ''Linux'' []
     [(''decompress'', PyBool True)] \<lparr>spawned = [], stderr = []\<rparr>
   = (Inr 0,
      \<lparr>executable = ''makeblastdb'', input = [], in_arg = PyStr ''-'', out = PyNone,
        title = PyNone, dbtype = PyNone, parse_seqids = PyBool False,
        proc = Some \<lparr>args = [PyStr ''makeblastdb'', PyStr ''-in'', PyStr ''-''],
                      events = [Close, Wait]\<rparr>,
        decompress = PyBool True, chunk_size = PyInt 16384\<rparr>,
      \<lparr>spawned = [[PyStr ''makeblastdb'', PyStr ''-in'', PyStr ''-'']],
        stderr = [''MakeBlastDB: null input'' @ [CHR 0x0A]]\<rparr>)"
proof -
  let ?c = "\<lparr>executable = ''makeblastdb'', input = [], in_arg = PyStr ''-'', out = PyNone,
        title = PyNone, dbtype = PyNone, parse_seqids = PyBool False, proc = None,
        decompress = PyBool True, chunk_size = PyInt 16384\<rparr>"
  let ?a = "[PyStr ''makeblastdb'', PyStr ''-in'', PyStr ''-'']"
  let ?s = "?c\<lparr>proc := Some \<lparr>args = ?a, events = []\<rparr>\<rparr>"
  have a: "get_command_args ?c = ?a"
    by (simp add: get_command_args_def)
  have p: "proc ?s = Some \<lparr>args = ?a, events = []\<rparr>" by simp
  have r: "stream_read (chunk_size ?s) (input ?s) = Inr ([], [])" by simp
  show ?thesis
    unfolding blastdb_make_unfold [OF init_decompress] a
      empty_input_closes_and_waits [OF p r]
    by simp
qed

text \<open>
  Claim C4, as stated, fails on its second half. On a gzip header whose first byte is
  corrupted the decompressor raises at the second byte, \<open>make\<close> raises that error, and
  the process it had spawned has seen no event: the pipe is not closed and the child is
  not waited on.
\<close>

theorem malformed_input_pipe_not_closed:
  "blastdb_make gunzip_step zlib_decompressobj (\<lambda>a bs. 0) ''Linux'' [0, 139, 8, 0, 0, 0, 0, 0, 4, 3]
     [(''decompress'', PyBool True)] \<lparr>spawned = [], stderr = []\<rparr>
   = (Inl ZlibError,
      \<lparr>executable = ''makeblastdb'', input = [], in_arg = PyStr ''-'', out = PyNone,
        title = PyNone, dbtype = PyNone, parse_seqids = PyBool False,
        proc = Some \<lparr>args = [PyStr ''makeblastdb'', PyStr ''-in'', PyStr ''-''], events = []\<rparr>,
        decompress = PyBool True, chunk_size = PyInt 16384\<rparr>,
      \<lparr>spawned = [[PyStr ''makeblastdb'', PyStr ''-in'', PyStr ''-'']], stderr = []\<rparr>)"
proof -
  let ?c = "\<lparr>executable = ''makeblastdb'', input = [0, 139, 8, 0, 0, 0, 0, 0, 4, 3],
        in_arg = PyStr ''-'', out = PyNone,
        title = PyNone, dbtype = PyNone, parse_seqids = PyBool False, proc = None,
        decompress = PyBool True, chunk_size = PyInt 16384\<rparr>"
  let ?a = "[PyStr ''makeblastdb'', PyStr ''-in'', PyStr ''-'']"
  let ?s = "?c\<lparr>proc := Some \<lparr>args = ?a, events = []\<rparr>\<rparr>"
  have a: "get_command_args ?c = ?a"
    by (simp add: get_command_args_def)
  have r: "stream_read (chunk_size ?s) (input ?s) = Inr ([0, 139, 8, 0, 0, 0, 0, 0, 4, 3], [])"
    by simp
  have z: "zfeed gunzip_step zlib_decompressobj [0, 139, 8, 0, 0, 0, 0, 0, 4, 3] = Inl ZlibError"
    by (simp add: gunzip_step_def gunzip_head_def zlib_decompressobj_def)
  show ?thesis
    unfolding blastdb_make_unfold [OF init_decompress] a communicate_def Let_def
      first_read [OF r] z
    by simp
qed

section \<open>The reader: the theorems\<close>

text \<open>The reference decompressor on the two sample files.\<close>

lemma crc_a: "crc32_byte 0xFFFFFFFF 97 = 0x174841BC"
  by code_simp

lemma crc_b: "crc32_byte 0xFFFFFFFF 98 = 0x8E411006"
  by code_simp

lemma check_a: "le_word [67, 190, 183, 232] = NOT 0x174841BC"
  by code_simp

lemma check_b: "le_word [249, 239, 190, 113] = NOT 0x8E411006"
  by code_simp

lemma gz_a_decodes:
  "zfeed gunzip_step zlib_decompressobj gz_a
   = Inr ([97], \<lparr>phase = ZDone, crc = 0x174841BC, total = 1, unused_data = []\<rparr>)"
  by (simp add: gz_a_def gunzip_step_def gunzip_head_def zlib_decompressobj_def le_word_def
        after_block_def crc_a check_a [unfolded le_word_def])

lemma gz_b_decodes:
  "zfeed gunzip_step zlib_decompressobj gz_b
   = Inr ([98], \<lparr>phase = ZDone, crc = 0x8E411006, total = 1, unused_data = []\<rparr>)"
  by (simp add: gz_b_def gunzip_step_def gunzip_head_def zlib_decompressobj_def le_word_def
        after_block_def crc_b check_b [unfolded le_word_def])


text \<open>Reading in chunks and decompressing chunk by chunk.\<close>

lemma stream_read_split: "stream_read cs s = Inr (raw, rest) \<Longrightarrow> s = raw @ rest"
  by (cases cs) (auto split: if_splits)

lemma decompress_split:
  assumes "zfeed step (dobj g) (stream g) = Inr (rem, z1)"
  shows "(\<exists>e. (if cs = PyNone then Inr (stream g, []) else stream_read cs (stream g)) = Inl e
             \<and> StreamGunZip_decompress step cs g = (Inl e, g))
       \<or> (\<exists>o1 o2 g1. StreamGunZip_decompress step cs g = (Inr o1, g1)
             \<and> rem = o1 @ o2 \<and> zfeed step (dobj g1) (stream g1) = Inr (o2, z1)
             \<and> (\<exists>raw. stream g = raw @ stream g1
                    \<and> (if cs = PyNone then Inr (stream g, []) else stream_read cs (stream g))
                        = Inr (raw, stream g1)))"
proof (cases "if cs = PyNone then Inr (stream g, []) else stream_read cs (stream g)")
  case (Inl e)
  then show ?thesis by (simp add: StreamGunZip_decompress_def)
next
  case (Inr rr)
  obtain raw rest where rr: "rr = (raw, rest)" by (cases rr)
  have s: "stream g = raw @ rest"
    using Inr rr stream_read_split [of cs "stream g" raw rest] by (auto split: if_splits)
  from assms s have "zfeed step (dobj g) (raw @ rest) = Inr (rem, z1)" by simp
  then obtain o1 o2 z' where
    z: "zfeed step (dobj g) raw = Inr (o1, z')" "zfeed step z' rest = Inr (o2, z1)" "rem = o1 @ o2"
    by (auto simp: zfeed_append split: sum.splits prod.splits)
  have "StreamGunZip_decompress step cs g = (Inr o1, g\<lparr>dobj := z', stream := rest\<rparr>)"
    using Inr rr z(1) by (simp add: StreamGunZip_decompress_def)
  with z s Inr rr show ?thesis by auto
qed

lemma zfeed_split:
  "zfeed step z (raw @ rest) = Inr (rem, z1)
   \<Longrightarrow> \<exists>o1 o2 z'. zfeed step z raw = Inr (o1, z') \<and> zfeed step z' rest = Inr (o2, z1)
         \<and> rem = o1 @ o2"
  by (auto simp: zfeed_append split: sum.splits prod.splits)

lemma decompress_int:
  assumes "0 \<le> n" and "zfeed step (dobj g) (stream g) = Inr (rem, z1)"
  shows "\<exists>o1 o2 z'. StreamGunZip_decompress step (PyInt n) g
            = (Inr o1, g\<lparr>dobj := z', stream := drop (nat n) (stream g)\<rparr>)
          \<and> rem = o1 @ o2 \<and> zfeed step z' (drop (nat n) (stream g)) = Inr (o2, z1)"
proof -
  have "zfeed step (dobj g) (take (nat n) (stream g) @ drop (nat n) (stream g)) = Inr (rem, z1)"
    using assms(2) by (simp only: append_take_drop_id)
  from zfeed_split [OF this] obtain o1 o2 z' where
    z: "zfeed step (dobj g) (take (nat n) (stream g)) = Inr (o1, z')"
       "zfeed step z' (drop (nat n) (stream g)) = Inr (o2, z1)" "rem = o1 @ o2"
    by blast
  have "StreamGunZip_decompress step (PyInt n) g
          = (Inr o1, g\<lparr>dobj := z', stream := drop (nat n) (stream g)\<rparr>)"
    using assms(1) z(1) by (simp add: StreamGunZip_decompress_def)
  with z(2,3) show ?thesis by blast
qed

lemma decompress_calls_concat:
  "1 \<le> n \<Longrightarrow> zfeed step (dobj g) (stream g) = Inr (rem, z1)
   \<Longrightarrow> length (stream g) \<le> k * nat n
   \<Longrightarrow> \<exists>outs g'. decompress_calls step (PyInt n) k g = (Inr outs, g')
         \<and> concat outs = rem \<and> stream g' = [] \<and> dobj g' = z1"
proof (induction k arbitrary: g rem)
  case 0
  then show ?case by simp
next
  case (Suc k)
  from Suc.prems(1) have "0 \<le> n" by simp
  from decompress_int [OF this Suc.prems(2)] obtain o1 o2 z' where
    d0: "StreamGunZip_decompress step (PyInt n) g
           = (Inr o1, g\<lparr>dobj := z', stream := drop (nat n) (stream g)\<rparr>)"
        "rem = o1 @ o2" "zfeed step z' (drop (nat n) (stream g)) = Inr (o2, z1)"
    by blast
  define g1 where "g1 = g\<lparr>dobj := z', stream := drop (nat n) (stream g)\<rparr>"
  have d: "StreamGunZip_decompress step (PyInt n) g = (Inr o1, g1)" "rem = o1 @ o2"
       "zfeed step (dobj g1) (stream g1) = Inr (o2, z1)"
       "stream g1 = drop (nat n) (stream g)"
    using d0 by (simp_all add: g1_def)
  from Suc.prems(3) d(4) have "length (stream g1) \<le> k * nat n" by simp
  from Suc.IH [OF Suc.prems(1) d(3) this] obtain outs g' where
    "decompress_calls step (PyInt n) k g1 = (Inr outs, g')" "concat outs = o2"
    "stream g' = []" "dobj g' = z1" by blast
  with d(1,2) show ?case by simp
qed

text \<open>
  Claim C2, amended. \<open>next\<close> signals \<open>StopIteration\<close> whenever the chunk it decompresses
  is empty, whether the byte source is exhausted or raw data remains; once the source is
  exhausted every call does so. A chunk that \<open>next\<close> returns is never empty, and \<open>next\<close>
  leaves the reader as \<open>decompress\<close> does: the raw bytes of an empty chunk are consumed.
\<close>

theorem next_stops_at_empty_chunk:
  "(stream g = [] \<and> sgz_chunk_size g = PyInt n
      \<longrightarrow> fst (StreamGunZip_next step g) = Inl StopIteration)
   \<and> (fst (StreamGunZip_decompress step (sgz_chunk_size g) g) = Inr []
      \<longrightarrow> fst (StreamGunZip_next step g) = Inl StopIteration)
   \<and> (fst (StreamGunZip_next step g) = Inr data
      \<longrightarrow> data \<noteq> [] \<and> fst (StreamGunZip_decompress step (sgz_chunk_size g) g) = Inr data)
   \<and> snd (StreamGunZip_next step g) = snd (StreamGunZip_decompress step (sgz_chunk_size g) g)"
  by (auto simp: StreamGunZip_next_def StreamGunZip_decompress_def
           split: sum.splits prod.splits if_splits)

lemma zdone_absorbs:
  "phase z = ZDone \<Longrightarrow>
   zfeed gunzip_step z bs = Inr ([], z\<lparr>unused_data := unused_data z @ bs\<rparr>)"
  by (induction bs arbitrary: z) (simp_all add: gunzip_step_def)

lemma gz_a_first_byte:
  "zfeed gunzip_step zlib_decompressobj [31]
   = Inr ([], \<lparr>phase = ZHead [31], crc = 0xFFFFFFFF, total = 0, unused_data = []\<rparr>)"
  by (simp add: gunzip_step_def gunzip_head_def zlib_decompressobj_def)

lemma gz_a_two_bytes:
  "zfeed gunzip_step zlib_decompressobj (take 2 gz_a)
   = Inr ([], \<lparr>phase = ZHead [31, 139], crc = 0xFFFFFFFF, total = 0, unused_data = []\<rparr>)"
  by (simp add: gz_a_def gunzip_step_def gunzip_head_def zlib_decompressobj_def)

lemma gz_a_sixteen_bytes:
  "zfeed gunzip_step zlib_decompressobj (take 16 gz_a)
   = Inr ([97], \<lparr>phase = ZCheck [], crc = 0x174841BC, total = 1, unused_data = []\<rparr>)"
  by (simp add: gz_a_def gunzip_step_def gunzip_head_def zlib_decompressobj_def le_word_def
        after_block_def crc_a)

lemma init_decompress_chunk_one:
  "MakeBlastDB_init ''Linux'' inp [(''decompress'', PyBool True), (''chunk_size'', PyInt 1)]
   = (None, \<lparr>executable = ''makeblastdb'', input = inp, in_arg = PyStr ''-'', out = PyNone,
        title = PyNone, dbtype = PyNone, parse_seqids = PyBool False, proc = None,
        decompress = PyBool True, chunk_size = PyInt 1\<rparr>)"
  by (simp add: MakeBlastDB_init_def set_defaults_def set_option_def Let_def)

text \<open>
  Claim C1, as stated for every chunk size and for the chunks the reader and the pump
  produce until they stop, fails at chunk size 1: the first byte of the gzip header
  decompresses to nothing, the pump takes the empty chunk for the end of the input, and
  the child receives none of the one-byte payload.
\<close>

theorem pump_chunk_size_one_delivers_nothing:
  "zfeed gunzip_step zlib_decompressobj gz_a
     = Inr ([97], \<lparr>phase = ZDone, crc = 0x174841BC, total = 1, unused_data = []\<rparr>)
   \<and> blastdb_make gunzip_step zlib_decompressobj (\<lambda>a bs. int (length bs)) ''Linux'' gz_a
       [(''decompress'', PyBool True), (''chunk_size'', PyInt 1)] \<lparr>spawned = [], stderr = []\<rparr>
     = (Inr 0,
        \<lparr>executable = ''makeblastdb'', input = tl gz_a, in_arg = PyStr ''-'', out = PyNone,
          title = PyNone, dbtype = PyNone, parse_seqids = PyBool False,
          proc = Some \<lparr>args = [PyStr ''makeblastdb'', PyStr ''-in'', PyStr ''-''],
                        events = [Close, Wait]\<rparr>,
          decompress = PyBool True, chunk_size = PyInt 1\<rparr>,
        \<lparr>spawned = [[PyStr ''makeblastdb'', PyStr ''-in'', PyStr ''-'']],
          stderr = [''MakeBlastDB: null input'' @ [CHR 0x0A]]\<rparr>)"
proof (rule conjI)
  show "zfeed gunzip_step zlib_decompressobj gz_a
     = Inr ([97], \<lparr>phase = ZDone, crc = 0x174841BC, total = 1, unused_data = []\<rparr>)"
    by (rule gz_a_decodes)
next
  let ?c = "\<lparr>executable = ''makeblastdb'', input = gz_a, in_arg = PyStr ''-'', out = PyNone,
        title = PyNone, dbtype = PyNone, parse_seqids = PyBool False, proc = None,
        decompress = PyBool True, chunk_size = PyInt 1\<rparr>"
  let ?a = "[PyStr ''makeblastdb'', PyStr ''-in'', PyStr ''-'']"
  let ?s = "?c\<lparr>proc := Some \<lparr>args = ?a, events = []\<rparr>\<rparr>"
  have a: "get_command_args ?c = ?a"
    by (simp add: get_command_args_def)
  have r: "stream_read (chunk_size ?s) (input ?s) = Inr ([31], tl gz_a)"
    by (simp add: gz_a_def)
  show "blastdb_make gunzip_step zlib_decompressobj (\<lambda>a bs. int (length bs)) ''Linux'' gz_a
       [(''decompress'', PyBool True), (''chunk_size'', PyInt 1)] \<lparr>spawned = [], stderr = []\<rparr>
     = (Inr 0,
        \<lparr>executable = ''makeblastdb'', input = tl gz_a, in_arg = PyStr ''-'', out = PyNone,
          title = PyNone, dbtype = PyNone, parse_seqids = PyBool False,
          proc = Some \<lparr>args = [PyStr ''makeblastdb'', PyStr ''-in'', PyStr ''-''],
                        events = [Close, Wait]\<rparr>,
          decompress = PyBool True, chunk_size = PyInt 1\<rparr>,
        \<lparr>spawned = [[PyStr ''makeblastdb'', PyStr ''-in'', PyStr ''-'']],
          stderr = [''MakeBlastDB: null input'' @ [CHR 0x0A]]\<rparr>)"
    unfolding blastdb_make_unfold [OF init_decompress_chunk_one] a communicate_def Let_def
      first_read [OF r] gz_a_first_byte
    by (simp add: close_and_wait_def)
qed

text \<open>
  Claim C2, as stated, fails: with chunk size 1 the first call of \<open>next\<close> on a gzip
  file signals \<open>StopIteration\<close> while 23 raw bytes remain in the source.
\<close>

theorem next_stops_with_raw_data_left:
  "fst (StreamGunZip_next gunzip_step (StreamGunZip_init zlib_decompressobj gz_a (PyInt 1)))
     = Inl StopIteration
   \<and> length (stream (snd (StreamGunZip_next gunzip_step
                 (StreamGunZip_init zlib_decompressobj gz_a (PyInt 1))))) = 23"
  using gz_a_first_byte
  by (simp add: StreamGunZip_next_def StreamGunZip_decompress_def StreamGunZip_init_def gz_a_def)

text \<open>
  An exhausted source, a chunk of two header bytes that decompresses to nothing, and a
  chunk of sixteen bytes that releases the payload.
\<close>

theorem next_stops_at_empty_chunk_witness:
  "fst (StreamGunZip_next gunzip_step (StreamGunZip_init zlib_decompressobj [] (PyInt 2)))
     = Inl StopIteration
   \<and> fst (StreamGunZip_decompress gunzip_step (PyInt 2)
           (StreamGunZip_init zlib_decompressobj gz_a (PyInt 2))) = Inr []
   \<and> fst (StreamGunZip_next gunzip_step (StreamGunZip_init zlib_decompressobj gz_a (PyInt 2)))
     = Inl StopIteration
   \<and> fst (StreamGunZip_next gunzip_step (StreamGunZip_init zlib_decompressobj gz_a (PyInt 16)))
     = Inr [97]
   \<and> fst (StreamGunZip_decompress gunzip_step (PyInt 16)
           (StreamGunZip_init zlib_decompressobj gz_a (PyInt 16))) = Inr [97]"
proof -
  let ?g0 = "StreamGunZip_init zlib_decompressobj [] (PyInt 2)"
  let ?g2 = "StreamGunZip_init zlib_decompressobj gz_a (PyInt 2)"
  let ?g16 = "StreamGunZip_init zlib_decompressobj gz_a (PyInt 16)"
  have h0: "stream ?g0 = [] \<and> sgz_chunk_size ?g0 = PyInt 2"
    by (simp add: StreamGunZip_init_def)
  have h2: "fst (StreamGunZip_decompress gunzip_step (sgz_chunk_size ?g2) ?g2) = Inr []"
    by (simp add: StreamGunZip_decompress_def StreamGunZip_init_def gz_a_two_bytes)
  have h16: "fst (StreamGunZip_next gunzip_step ?g16) = Inr [97]"
    by (simp add: StreamGunZip_next_def StreamGunZip_decompress_def StreamGunZip_init_def
          gz_a_sixteen_bytes)
  from next_stops_at_empty_chunk [of ?g0 2 gunzip_step] h0
  have a: "fst (StreamGunZip_next gunzip_step ?g0) = Inl StopIteration" by blast
  from next_stops_at_empty_chunk [of ?g2 2 gunzip_step] h2
  have b: "fst (StreamGunZip_next gunzip_step ?g2) = Inl StopIteration" by blast
  from next_stops_at_empty_chunk [of ?g16 16 gunzip_step "[97]"] h16
  have c: "fst (StreamGunZip_decompress gunzip_step (sgz_chunk_size ?g16) ?g16) = Inr [97]"
    by blast
  have s2: "sgz_chunk_size ?g2 = PyInt 2" and s16: "sgz_chunk_size ?g16 = PyInt 16"
    by (simp_all add: StreamGunZip_init_def)
  from a b c h2 h16 show ?thesis unfolding s2 s16 by blast
qed

text \<open>
  Claim C3, as stated, fails: for the gzip files of \<open>a\<close> and of \<open>b\<close> concatenated, a
  single read of the whole stream, by \<open>decompress(64)\<close> or by \<open>decompress()\<close>, yields
  \<open>a\<close> and not \<open>ab\<close>.
\<close>

theorem two_members_yield_first_payload_only:
  "zfeed gunzip_step zlib_decompressobj gz_a
     = Inr ([97], \<lparr>phase = ZDone, crc = 0x174841BC, total = 1, unused_data = []\<rparr>)
   \<and> zfeed gunzip_step zlib_decompressobj gz_b
     = Inr ([98], \<lparr>phase = ZDone, crc = 0x8E411006, total = 1, unused_data = []\<rparr>)
   \<and> fst (decompress_calls gunzip_step (PyInt 64) 1
           (StreamGunZip_init zlib_decompressobj (gz_a @ gz_b) (PyInt 1024))) = Inr [[97]]
   \<and> fst (StreamGunZip_decompress gunzip_step PyNone
           (StreamGunZip_init zlib_decompressobj (gz_a @ gz_b) (PyInt 1024))) = Inr [97]"
proof -
  have z: "zfeed gunzip_step zlib_decompressobj (gz_a @ gz_b)
           = Inr ([97], \<lparr>phase = ZDone, crc = 0x174841BC, total = 1, unused_data = gz_b\<rparr>)"
    by (simp add: zfeed_append gz_a_decodes zdone_absorbs)
  have sr: "stream_read (PyInt 64) (gz_a @ gz_b) = Inr (gz_a @ gz_b, [])"
    by (simp add: gz_a_def gz_b_def)
  have "fst (decompress_calls gunzip_step (PyInt 64) 1
           (StreamGunZip_init zlib_decompressobj (gz_a @ gz_b) (PyInt 1024))) = Inr [[97]]"
    by (simp add: StreamGunZip_decompress_def StreamGunZip_init_def sr z
          del: stream_read.simps zfeed.simps)
  moreover have "fst (StreamGunZip_decompress gunzip_step PyNone
           (StreamGunZip_init zlib_decompressobj (gz_a @ gz_b) (PyInt 1024))) = Inr [97]"
    by (simp add: StreamGunZip_decompress_def StreamGunZip_init_def z)
  ultimately show ?thesis using gz_a_decodes gz_b_decodes by blast
qed

section \<open>The pump and the reader, chunk by chunk\<close>

lemma decompress_field:
  "StreamGunZip_decompress step cs (g\<lparr>sgz_chunk_size := x\<rparr>) =
     (case StreamGunZip_decompress step cs g of (r, g') \<Rightarrow> (r, g'\<lparr>sgz_chunk_size := x\<rparr>))"
  by (simp add: StreamGunZip_decompress_def split: sum.splits prod.splits)

lemma decompress_calls_field:
  "decompress_calls step cs k (g\<lparr>sgz_chunk_size := x\<rparr>) =
     (case decompress_calls step cs k g of (r, g') \<Rightarrow> (r, g'\<lparr>sgz_chunk_size := x\<rparr>))"
  by (induction k arbitrary: g) (simp_all add: decompress_field split: sum.splits prod.splits)

lemma decompress_calls_Suc:
  assumes "decompress_calls step cs (Suc k) g = (Inr outs, g')"
  shows "\<exists>o1 g1 outs'. StreamGunZip_decompress step cs g = (Inr o1, g1)
           \<and> decompress_calls step cs k g1 = (Inr outs', g') \<and> outs = o1 # outs'"
  using assms by (auto split: sum.splits prod.splits)

lemma decompress_int_stream:
  "0 \<le> n \<Longrightarrow> StreamGunZip_decompress step (PyInt n) g = (r, g1)
   \<Longrightarrow> stream g1 = drop (nat n) (stream g)"
  by (auto simp: StreamGunZip_decompress_def split: sum.splits prod.splits)

lemma decompress_exhausted:
  "stream g = [] \<Longrightarrow> 0 \<le> n \<Longrightarrow>
   StreamGunZip_decompress step (PyInt n) g = (Inr [], g\<lparr>dobj := dobj g, stream := []\<rparr>)"
  by (simp add: StreamGunZip_decompress_def)

lemma pump_loop_chunks:
  "1 \<le> n \<Longrightarrow> length (stream g) \<le> k * nat n
   \<Longrightarrow> decompress_calls step (PyInt n) k g = (Inr outs, g')
   \<Longrightarrow> \<exists>rd'. pump_loop step (PyInt n) (ReadGunzip g) data p =
         (None, rd',
          p\<lparr>events := events p @
               (if data = [] then []
                else [Write data, Flush]
                     @ concat (map (\<lambda>x. [Write x, Flush]) (takeWhile (\<lambda>x. x \<noteq> []) outs)))\<rparr>)"
proof (induction k arbitrary: g data p outs)
  case 0
  hence s: "stream g = []" and o: "outs = []" by simp_all
  show ?case
  proof (cases "data = []")
    case True
    then show ?thesis by (simp add: pump_loop_done)
  next
    case False
    from "0.prems"(1) have "0 \<le> n" by simp
    from decompress_exhausted [OF s this, of step] False o show ?thesis
      by (simp add: pump_loop_more pump_loop_done)
  qed
next
  case (Suc k)
  from decompress_calls_Suc [OF Suc.prems(3)] obtain o1 g1 outs' where
    d: "StreamGunZip_decompress step (PyInt n) g = (Inr o1, g1)"
       "decompress_calls step (PyInt n) k g1 = (Inr outs', g')" "outs = o1 # outs'"
    by blast
  from Suc.prems(1) have "0 \<le> n" by simp
  from decompress_int_stream [OF this d(1)] Suc.prems(2)
  have l: "length (stream g1) \<le> k * nat n" by simp
  show ?case
  proof (cases "data = []")
    case True
    then show ?thesis by (simp add: pump_loop_done)
  next
    case False
    let ?p1 = "p\<lparr>events := events p @ [Write data, Flush]\<rparr>"
    from Suc.IH [OF Suc.prems(1) l d(2), of o1 ?p1] obtain rd' where
      ih: "pump_loop step (PyInt n) (ReadGunzip g1) o1 ?p1 =
         (None, rd',
          ?p1\<lparr>events := events ?p1 @
               (if o1 = [] then []
                else [Write o1, Flush]
                     @ concat (map (\<lambda>x. [Write x, Flush]) (takeWhile (\<lambda>x. x \<noteq> []) outs')))\<rparr>)"
      by blast
    have "pump_loop step (PyInt n) (ReadGunzip g) data p =
            pump_loop step (PyInt n) (ReadGunzip g1) o1 ?p1"
      using False d(1) by (simp add: pump_loop_more)
    with ih False d(3) show ?thesis
      by (intro exI [of _ rd']) simp
  qed
qed

lemma pump_loop_error:
  "decompress_calls step cs j g = (Inr outs, g1) \<Longrightarrow> [] \<notin> set outs
   \<Longrightarrow> StreamGunZip_decompress step cs g1 = (Inl e, g2) \<Longrightarrow> e \<noteq> StopIteration
   \<Longrightarrow> data \<noteq> []
   \<Longrightarrow> pump_loop step cs (ReadGunzip g) data p =
         (Some e, ReadGunzip g2,
          p\<lparr>events := events p @ [Write data, Flush]
                          @ concat (map (\<lambda>x. [Write x, Flush]) outs)\<rparr>)"
proof (induction j arbitrary: g data p outs)
  case 0
  then show ?case by (simp add: pump_loop_more)
next
  case (Suc j)
  from decompress_calls_Suc [OF Suc.prems(1)] obtain o1 g' outs' where
    d: "StreamGunZip_decompress step cs g = (Inr o1, g')"
       "decompress_calls step cs j g' = (Inr outs', g1)" "outs = o1 # outs'"
    by blast
  from Suc.prems(2) d(3) have ne: "o1 \<noteq> []" "[] \<notin> set outs'" by auto
  let ?p1 = "p\<lparr>events := events p @ [Write data, Flush]\<rparr>"
  have "pump_loop step cs (ReadGunzip g) data p = pump_loop step cs (ReadGunzip g') o1 ?p1"
    using Suc.prems(5) d(1) by (simp add: pump_loop_more)
  also have "\<dots> = (Some e, ReadGunzip g2,
          ?p1\<lparr>events := events ?p1 @ [Write o1, Flush]
                          @ concat (map (\<lambda>x. [Write x, Flush]) outs')\<rparr>)"
    by (rule Suc.IH [OF d(2) ne(2) Suc.prems(3) Suc.prems(4) ne(1)])
  finally show ?case using d(3) by simp
qed


lemma written_writes: "written (concat (map (\<lambda>x. [Write x, Flush]) xs)) = concat xs"
  by (induction xs) simp_all

lemma communicate_chunks:
  assumes n: "1 \<le> n" and l: "length (input self) \<le> k * nat n"
    and dc: "decompress_calls step (PyInt n) k (StreamGunZip_init z0 (input self) (PyInt 1024))
             = (Inr outs, g')"
    and p: "proc self = Some p" and t: "truthy (decompress self)"
    and cs: "chunk_size self = PyInt n"
  shows "\<exists>self' w'. communicate step z0 child self w
           = (Inr (child (args p)
                    (written (events p) @ concat (takeWhile (\<lambda>x. x \<noteq> []) outs))), self', w')
         \<and> proc self' = Some (p\<lparr>events := events p
               @ concat (map (\<lambda>x. [Write x, Flush]) (takeWhile (\<lambda>x. x \<noteq> []) outs))
               @ [Close, Wait]\<rparr>)"
proof -
  let ?g0 = "StreamGunZip_init z0 (input self) (PyInt 1024)"
  from n have n0: "0 \<le> n" by simp
  have s0: "stream ?g0 = input self" by (simp add: StreamGunZip_init_def)
  show ?thesis
  proof (cases k)
    case 0
    from l 0 have e: "stream ?g0 = []" by (simp add: StreamGunZip_init_def)
    from dc 0 have o: "outs = []" by simp
    from decompress_exhausted [OF e n0, of step] p t cs o show ?thesis
      by (simp add: communicate_def Let_def close_and_wait_def written_append)
  next
    case (Suc k')
    from decompress_calls_Suc [OF dc [unfolded Suc]] obtain o1 g1 outs' where
      d: "StreamGunZip_decompress step (PyInt n) ?g0 = (Inr o1, g1)"
         "decompress_calls step (PyInt n) k' g1 = (Inr outs', g')" "outs = o1 # outs'"
      by blast
    from decompress_int_stream [OF n0 d(1)] l Suc
    have l1: "length (stream g1) \<le> k' * nat n" by (simp add: s0)
    show ?thesis
    proof (cases "o1 = []")
      case True
      with d(1,3) p t cs show ?thesis
        by (simp add: communicate_def Let_def close_and_wait_def written_append)
    next
      case False
      from pump_loop_chunks [OF n l1 d(2), of o1 p] False obtain rd' where
        pl: "pump_loop step (PyInt n) (ReadGunzip g1) o1 p =
          (None, rd', p\<lparr>events := events p @ [Write o1, Flush]
               @ concat (map (\<lambda>x. [Write x, Flush]) (takeWhile (\<lambda>x. x \<noteq> []) outs'))\<rparr>)"
        by auto
      from d(1,3) p t cs False pl show ?thesis
        by (simp add: communicate_def Let_def close_and_wait_def written_append written_writes)
    qed
  qed
qed

text \<open>
  Claim C1, amended. Let \<open>c\<close> be a compressed form of \<open>payload\<close>: the decompressor,
  fed \<open>c\<close>, returns \<open>payload\<close>. For every chunk size \<open>n \<ge> 1\<close>, the chunks that
  \<open>decompress(n)\<close> returns over the reads that exhaust the source (\<open>k\<close> calls with
  \<open>k * n \<ge> |c|\<close>), concatenated, are exactly \<open>payload\<close>. The pump writes to the child
  exactly the chunks that come before the first empty one, each followed by a flush,
  then closes the pipe and waits, and returns the status of the child that received
  those bytes. The payload is those bytes followed by the chunks from the first empty
  one on: the pump delivers exactly the payload when no chunk that holds data comes
  after an empty chunk, and otherwise stops short at the first empty chunk.
\<close>

theorem chunked_decompression_round_trip:
  assumes "zfeed step z0 c = Inr (payload, z1)" and "1 \<le> n" and "length c \<le> k * nat n"
  shows "\<exists>outs g'. decompress_calls step (PyInt n) k (StreamGunZip_init z0 c cs) = (Inr outs, g')
       \<and> concat outs = payload \<and> stream g' = []
       \<and> payload = concat (takeWhile (\<lambda>x. x \<noteq> []) outs) @ concat (dropWhile (\<lambda>x. x \<noteq> []) outs)
       \<and> (proc self = Some p \<and> truthy (decompress self) \<and> chunk_size self = PyInt n
            \<and> input self = c
           \<longrightarrow> (\<exists>self' w'. communicate step z0 child self w
                     = (Inr (child (args p)
                          (written (events p) @ concat (takeWhile (\<lambda>x. x \<noteq> []) outs))),
                        self', w')
                 \<and> proc self' = Some (p\<lparr>events := events p
                       @ concat (map (\<lambda>x. [Write x, Flush]) (takeWhile (\<lambda>x. x \<noteq> []) outs))
                       @ [Close, Wait]\<rparr>)))"
proof -
  let ?g = "StreamGunZip_init z0 c cs"
  have z: "zfeed step (dobj ?g) (stream ?g) = Inr (payload, z1)"
    using assms(1) by (simp add: StreamGunZip_init_def)
  have k: "length (stream ?g) \<le> k * nat n"
    using assms(3) by (simp add: StreamGunZip_init_def)
  from decompress_calls_concat [OF assms(2) z k] obtain outs g' where
    o: "decompress_calls step (PyInt n) k ?g = (Inr outs, g')" "concat outs = payload"
       "stream g' = []" by blast
  have "concat outs = concat (takeWhile (\<lambda>x. x \<noteq> []) outs @ dropWhile (\<lambda>x. x \<noteq> []) outs)"
    by simp
  hence sp: "payload = concat (takeWhile (\<lambda>x. x \<noteq> []) outs) @ concat (dropWhile (\<lambda>x. x \<noteq> []) outs)"
    using o(2) by (simp only: concat_append)
  have g0: "StreamGunZip_init z0 c (PyInt 1024) = ?g\<lparr>sgz_chunk_size := PyInt 1024\<rparr>"
    by (simp add: StreamGunZip_init_def)
  have dc: "decompress_calls step (PyInt n) k (StreamGunZip_init z0 c (PyInt 1024))
            = (Inr outs, g'\<lparr>sgz_chunk_size := PyInt 1024\<rparr>)"
    unfolding g0 decompress_calls_field o(1) by simp
  have pump: "\<exists>self' w'. communicate step z0 child self w
                     = (Inr (child (args p)
                          (written (events p) @ concat (takeWhile (\<lambda>x. x \<noteq> []) outs))),
                        self', w')
                 \<and> proc self' = Some (p\<lparr>events := events p
                       @ concat (map (\<lambda>x. [Write x, Flush]) (takeWhile (\<lambda>x. x \<noteq> []) outs))
                       @ [Close, Wait]\<rparr>)"
    if h: "proc self = Some p \<and> truthy (decompress self) \<and> chunk_size self = PyInt n
            \<and> input self = c"
  proof -
    from h have i: "input self = c" by simp
    from h show ?thesis
      using communicate_chunks [OF assms(2) assms(3) [folded i] dc [folded i], of p child w]
      by blast
  qed
  from o sp pump show ?thesis by blast
qed

text \<open>
  Claim C4, amended. With \<open>decompress\<close> enabled, when decompressing a chunk fails, the
  first one or any later one that the pump reaches (the chunks before it decompress to
  data), \<open>communicate\<close> raises the decompressor's error. On that path the child has
  received exactly the chunks before the failing one, each written and flushed, and the
  pipe is neither closed nor waited on. Whenever \<open>communicate\<close> raises, the events added
  to the process hold no close and no wait, and the world is unchanged.
\<close>

theorem decompression_error_leaves_pipe_open:
  assumes "proc self = Some p"
  shows "(truthy (decompress self)
          \<and> decompress_calls step (chunk_size self) j
                (StreamGunZip_init z0 (input self) (PyInt 1024)) = (Inr outs, g1)
          \<and> [] \<notin> set outs
          \<and> StreamGunZip_decompress step (chunk_size self) g1 = (Inl e, g2)
          \<and> e \<noteq> StopIteration
          \<longrightarrow> (\<exists>self'. communicate step z0 child self w = (Inl e, self', w)
                 \<and> proc self' = Some (p\<lparr>events := events p
                       @ concat (map (\<lambda>x. [Write x, Flush]) outs)\<rparr>)))
       \<and> (communicate step z0 child self w = (Inl e', self', w')
            \<longrightarrow> w' = w
              \<and> (\<exists>ws. proc self' = Some (p\<lparr>events := events p @ ws\<rparr>)
                     \<and> Close \<notin> set ws \<and> Wait \<notin> set ws))"
proof (rule conjI; rule impI)
  assume "truthy (decompress self)
          \<and> decompress_calls step (chunk_size self) j
                (StreamGunZip_init z0 (input self) (PyInt 1024)) = (Inr outs, g1)
          \<and> [] \<notin> set outs
          \<and> StreamGunZip_decompress step (chunk_size self) g1 = (Inl e, g2)
          \<and> e \<noteq> StopIteration"
  hence t: "truthy (decompress self)"
    and dc: "decompress_calls step (chunk_size self) j
                (StreamGunZip_init z0 (input self) (PyInt 1024)) = (Inr outs, g1)"
    and ne: "[] \<notin> set outs"
    and f: "StreamGunZip_decompress step (chunk_size self) g1 = (Inl e, g2)"
    and s: "e \<noteq> StopIteration" by simp_all
  let ?g0 = "StreamGunZip_init z0 (input self) (PyInt 1024)"
  show "\<exists>self'. communicate step z0 child self w = (Inl e, self', w)
                 \<and> proc self' = Some (p\<lparr>events := events p
                       @ concat (map (\<lambda>x. [Write x, Flush]) outs)\<rparr>)"
  proof (cases j)
    case 0
    with dc have "outs = []" "g1 = ?g0" by simp_all
    with f t assms show ?thesis
      by (simp add: communicate_def Let_def)
  next
    case (Suc j')
    from decompress_calls_Suc [OF dc [unfolded Suc]] obtain o1 g' outs' where
      d: "StreamGunZip_decompress step (chunk_size self) ?g0 = (Inr o1, g')"
         "decompress_calls step (chunk_size self) j' g' = (Inr outs', g1)" "outs = o1 # outs'"
      by blast
    from ne d(3) have n1: "o1 \<noteq> []" "[] \<notin> set outs'" by auto
    note pl = pump_loop_error [OF d(2) n1(2) f s n1(1), of p]
    from d(1,3) n1(1) t assms pl show ?thesis
      by (simp add: communicate_def Let_def)
  qed
next
  assume c: "communicate step z0 child self w = (Inl e', self', w')"
  let ?rd = "if truthy (decompress self)
             then ReadGunzip (StreamGunZip_init z0 (input self) (PyInt 1024))
             else ReadRaw (input self)"
  obtain res rd1 where rc: "reader_call step (chunk_size self) ?rd = (res, rd1)"
    by (cases "reader_call step (chunk_size self) ?rd")
  show "w' = w \<and> (\<exists>ws. proc self' = Some (p\<lparr>events := events p @ ws\<rparr>)
                     \<and> Close \<notin> set ws \<and> Wait \<notin> set ws)"
  proof (cases res)
    case (Inl e1)
    with c rc assms have "w' = w" "proc self' = Some p"
      by (auto simp: communicate_def Let_def)
    then show ?thesis by (intro conjI exI [of _ "[]"]) simp_all
  next
    case (Inr data)
    show ?thesis
    proof (cases "data = []")
      case True
      with c rc Inr assms show ?thesis
        by (simp add: communicate_def Let_def close_and_wait_def)
    next
      case False
      obtain r1 rd2 p2 where pl: "pump_loop step (chunk_size self) rd1 data p = (r1, rd2, p2)"
        by (cases "pump_loop step (chunk_size self) rd1 data p")
      from pump_loop_events [OF pl] obtain ws where
        ws: "p2 = p\<lparr>events := events p @ ws\<rparr>" "Close \<notin> set ws" "Wait \<notin> set ws"
        by blast
      from c rc Inr False assms pl have "w' = w \<and> proc self' = Some p2"
        by (cases r1) (auto simp: communicate_def Let_def close_and_wait_def)
      with ws show ?thesis by blast
    qed
  qed
qed

text \<open>
  Claim C3, amended. The reader uses one decompression object for its whole lifetime.
  When that object, having consumed a first member \<open>m1\<close> with payload \<open>p1\<close>, yields no
  output for the bytes \<open>m2\<close> that follow (as the library's object does once it has
  reached the end of its stream: it keeps them in \<open>unused_data\<close>), the reader yields
  over its whole lifetime \<open>p1\<close> only, whether the stream is read in chunks or at once.
  This holds for every decompressor, chunk size \<open>n \<ge> 1\<close> and pair of members.
\<close>

theorem second_member_not_decompressed:
  assumes "1 \<le> n"
    and "zfeed step z0 m1 = Inr (p1, z1)"
    and "zfeed step z1 m2 = Inr ([], z2)"
    and "length (m1 @ m2) \<le> k * nat n"
  shows "(\<exists>outs g'. decompress_calls step (PyInt n) k (StreamGunZip_init z0 (m1 @ m2) cs)
                      = (Inr outs, g')
           \<and> concat outs = p1 \<and> stream g' = [] \<and> dobj g' = z2)
       \<and> fst (StreamGunZip_decompress step PyNone (StreamGunZip_init z0 (m1 @ m2) cs)) = Inr p1"
proof
  let ?g = "StreamGunZip_init z0 (m1 @ m2) cs"
  have w: "zfeed step z0 (m1 @ m2) = Inr (p1, z2)"
    by (simp add: zfeed_append assms(2,3))
  hence z: "zfeed step (dobj ?g) (stream ?g) = Inr (p1, z2)"
    by (simp add: StreamGunZip_init_def)
  have k: "length (stream ?g) \<le> k * nat n"
    using assms(4) by (simp add: StreamGunZip_init_def)
  from decompress_calls_concat [OF assms(1) z k]
  show "\<exists>outs g'. decompress_calls step (PyInt n) k ?g = (Inr outs, g')
           \<and> concat outs = p1 \<and> stream g' = [] \<and> dobj g' = z2"
    by blast
  show "fst (StreamGunZip_decompress step PyNone ?g) = Inr p1"
    using w by (simp add: StreamGunZip_decompress_def StreamGunZip_init_def del: zfeed.simps)
qed

lemma gz_a_rest:
  "zfeed gunzip_step \<lparr>phase = ZCheck [], crc = 0x174841BC, total = Suc 0, unused_data = []\<rparr>
     (take 16 (drop 16 gz_a))
   = Inr ([], \<lparr>phase = ZDone, crc = 0x174841BC, total = 1, unused_data = []\<rparr>)"
  by (simp add: gz_a_def gunzip_step_def le_word_def check_a [unfolded le_word_def])

lemma check_bad: "le_word [66, 190, 183, 232] \<noteq> NOT 0x174841BC"
  by code_simp

lemma gz_a_bad_sixteen_bytes:
  "zfeed gunzip_step zlib_decompressobj (take 16 gz_a_bad)
   = Inr ([97], \<lparr>phase = ZCheck [], crc = 0x174841BC, total = 1, unused_data = []\<rparr>)"
  by (simp add: gz_a_bad_def gunzip_step_def gunzip_head_def zlib_decompressobj_def le_word_def
        after_block_def crc_a)

lemma gz_a_bad_rest:
  "zfeed gunzip_step \<lparr>phase = ZCheck [], crc = 0x174841BC, total = Suc 0, unused_data = []\<rparr>
     (take 16 (drop 16 gz_a_bad))
   = Inl ZlibError"
  by (simp add: gz_a_bad_def gunzip_step_def le_word_def check_bad [unfolded le_word_def])

text \<open>
  The gzip file of the payload \<open>a\<close> pumped with chunk size 16: the chunks are \<open>a\<close>
  and an empty one, the child receives the write of \<open>a\<close>, a flush, the close and the
  wait, and its status reports one byte received.
\<close>

theorem chunked_decompression_round_trip_witness:
  "\<exists>self' w'. communicate gunzip_step zlib_decompressobj (\<lambda>a bs. int (length bs))
       \<lparr>executable = ''makeblastdb'', input = gz_a, in_arg = PyStr ''-'', out = PyNone,
         title = PyNone, dbtype = PyNone, parse_seqids = PyBool False,
         proc = Some \<lparr>args = [], events = []\<rparr>, decompress = PyBool True,
         chunk_size = PyInt 16\<rparr> \<lparr>spawned = [], stderr = []\<rparr>
       = (Inr 1, self', w')
     \<and> proc self' = Some \<lparr>args = [], events = [Write [97], Flush, Close, Wait]\<rparr>"
proof -
  let ?s = "\<lparr>executable = ''makeblastdb'', input = gz_a, in_arg = PyStr ''-'', out = PyNone,
         title = PyNone, dbtype = PyNone, parse_seqids = PyBool False,
         proc = Some \<lparr>args = [], events = []\<rparr>, decompress = PyBool True,
         chunk_size = PyInt 16\<rparr>"
  let ?p = "\<lparr>args = [], events = []\<rparr>"
  have n: "(1::int) \<le> 16" by simp
  have k: "length gz_a \<le> 2 * nat 16" by (simp add: gz_a_def)
  have ev: "fst (decompress_calls gunzip_step (PyInt 16) 2
              (StreamGunZip_init zlib_decompressobj gz_a (PyInt 1024))) = Inr [[97], []]"
    by (simp add: numeral_2_eq_2 StreamGunZip_decompress_def StreamGunZip_init_def
          gz_a_sixteen_bytes gz_a_rest)
  from chunked_decompression_round_trip [OF gz_a_decodes n k, of "PyInt 1024" ?s ?p
      "\<lambda>a bs. int (length bs)" "\<lparr>spawned = [], stderr = []\<rparr>"]
  obtain outs g' where
    o: "decompress_calls gunzip_step (PyInt 16) 2
          (StreamGunZip_init zlib_decompressobj gz_a (PyInt 1024)) = (Inr outs, g')"
    and pump: "proc ?s = Some ?p \<and> truthy (decompress ?s) \<and> chunk_size ?s = PyInt 16
            \<and> input ?s = gz_a
           \<longrightarrow> (\<exists>self' w'. communicate gunzip_step zlib_decompressobj (\<lambda>a bs. int (length bs)) ?s
                       \<lparr>spawned = [], stderr = []\<rparr>
                     = (Inr (int (length
                          (written (events ?p) @ concat (takeWhile (\<lambda>x. x \<noteq> []) outs)))),
                        self', w')
                 \<and> proc self' = Some (?p\<lparr>events := events ?p
                       @ concat (map (\<lambda>x. [Write x, Flush]) (takeWhile (\<lambda>x. x \<noteq> []) outs))
                       @ [Close, Wait]\<rparr>))"
    by blast
  from o ev have outs: "outs = [[97], []]" by simp
  have h: "proc ?s = Some ?p \<and> truthy (decompress ?s) \<and> chunk_size ?s = PyInt 16
            \<and> input ?s = gz_a" by simp
  from pump [rule_format, OF h] show ?thesis
    unfolding outs by simp
qed

text \<open>
  A gzip file with a corrupted checksum, pumped with chunk size 16: the first chunk
  releases the payload, which is written and flushed; the second chunk fails the
  checksum, the error is raised, and the process is left without a close and a wait.
\<close>

theorem decompression_error_leaves_pipe_open_witness:
  "\<exists>self'. communicate gunzip_step zlib_decompressobj (\<lambda>a bs. 0)
       \<lparr>executable = ''makeblastdb'', input = gz_a_bad, in_arg = PyStr ''-'', out = PyNone,
         title = PyNone, dbtype = PyNone, parse_seqids = PyBool False,
         proc = Some \<lparr>args = [], events = []\<rparr>, decompress = PyBool True,
         chunk_size = PyInt 16\<rparr> \<lparr>spawned = [], stderr = []\<rparr>
       = (Inl ZlibError, self', \<lparr>spawned = [], stderr = []\<rparr>)
     \<and> proc self' = Some \<lparr>args = [], events = [Write [97], Flush]\<rparr>
     \<and> (\<exists>ws. proc self' = Some \<lparr>args = [], events = ws\<rparr> \<and> Close \<notin> set ws \<and> Wait \<notin> set ws)"
proof -
  let ?s = "\<lparr>executable = ''makeblastdb'', input = gz_a_bad, in_arg = PyStr ''-'', out = PyNone,
         title = PyNone, dbtype = PyNone, parse_seqids = PyBool False,
         proc = Some \<lparr>args = [], events = []\<rparr>, decompress = PyBool True,
         chunk_size = PyInt 16\<rparr>"
  let ?p = "\<lparr>args = [], events = []\<rparr>"
  let ?w = "\<lparr>spawned = [], stderr = []\<rparr>"
  let ?g1 = "\<lparr>dobj = \<lparr>phase = ZCheck [], crc = 0x174841BC, total = 1, unused_data = []\<rparr>,
             stream = drop 16 gz_a_bad, sgz_chunk_size = PyInt 1024\<rparr>"
  let ?c = "communicate gunzip_step zlib_decompressobj (\<lambda>a bs. 0) ?s ?w"
  have p: "proc ?s = Some ?p" by simp
  have dc: "decompress_calls gunzip_step (chunk_size ?s) 1
              (StreamGunZip_init zlib_decompressobj (input ?s) (PyInt 1024)) = (Inr [[97]], ?g1)"
    by (simp add: StreamGunZip_decompress_def StreamGunZip_init_def gz_a_bad_sixteen_bytes)
  have f: "StreamGunZip_decompress gunzip_step (chunk_size ?s) ?g1
             = (Inl ZlibError, snd (StreamGunZip_decompress gunzip_step (chunk_size ?s) ?g1))"
    by (simp add: StreamGunZip_decompress_def gz_a_bad_rest)
  note inst = decompression_error_leaves_pipe_open [OF p, of gunzip_step 1 zlib_decompressobj
      "[[97]]" ?g1 ZlibError "snd (StreamGunZip_decompress gunzip_step (chunk_size ?s) ?g1)"
      "\<lambda>a bs. 0" ?w ZlibError "fst (snd ?c)" "snd (snd ?c)"]
  have h: "truthy (decompress ?s)
          \<and> decompress_calls gunzip_step (chunk_size ?s) 1
                (StreamGunZip_init zlib_decompressobj (input ?s) (PyInt 1024)) = (Inr [[97]], ?g1)
          \<and> [] \<notin> set [[97::byte]]
          \<and> StreamGunZip_decompress gunzip_step (chunk_size ?s) ?g1
               = (Inl ZlibError, snd (StreamGunZip_decompress gunzip_step (chunk_size ?s) ?g1))
          \<and> ZlibError \<noteq> StopIteration"
    using dc f by simp
  from inst h obtain self' where
    c: "?c = (Inl ZlibError, self', ?w)"
    and e: "proc self' = Some (?p\<lparr>events := events ?p
                       @ concat (map (\<lambda>x. [Write x, Flush]) [[97]])\<rparr>)"
    by blast
  from c have c2: "?c = (Inl ZlibError, fst (snd ?c), snd (snd ?c))" by simp
  from inst c2 obtain ws where
    ws: "proc (fst (snd ?c)) = Some (?p\<lparr>events := events ?p @ ws\<rparr>)"
        "Close \<notin> set ws" "Wait \<notin> set ws"
    by blast
  from c have s: "fst (snd ?c) = self'" by simp
  from e have e2: "proc self' = Some \<lparr>args = [], events = [Write [97], Flush]\<rparr>" by simp
  from ws s have "\<exists>ws. proc self' = Some \<lparr>args = [], events = ws\<rparr>
                    \<and> Close \<notin> set ws \<and> Wait \<notin> set ws"
    by (intro exI [of _ ws]) simp
  with c e2 show ?thesis by blast
qed

text \<open>
  The reference decompressor on the gzip file of \<open>a\<close> followed by that of \<open>b\<close>: at
  the end of the first member it yields nothing for the second, and the reader, in
  three chunks of sixteen bytes or in one read, yields \<open>a\<close>.
\<close>

theorem second_member_not_decompressed_witness:
  "(\<exists>outs g'. decompress_calls gunzip_step (PyInt 16) 3
                 (StreamGunZip_init zlib_decompressobj (gz_a @ gz_b) (PyInt 1024)) = (Inr outs, g')
       \<and> concat outs = [97] \<and> stream g' = [] \<and> unused_data (dobj g') = gz_b)
   \<and> fst (StreamGunZip_decompress gunzip_step PyNone
           (StreamGunZip_init zlib_decompressobj (gz_a @ gz_b) (PyInt 1024))) = Inr [97]"
proof -
  let ?z1 = "\<lparr>phase = ZDone, crc = 0x174841BC, total = 1, unused_data = []\<rparr>"
  have n: "(1::int) \<le> 16" by simp
  have a: "zfeed gunzip_step ?z1 gz_b = Inr ([], ?z1\<lparr>unused_data := unused_data ?z1 @ gz_b\<rparr>)"
    by (rule zdone_absorbs) simp
  have k: "length (gz_a @ gz_b) \<le> 3 * nat 16"
    by (simp add: gz_a_def gz_b_def)
  from second_member_not_decompressed [OF n gz_a_decodes a k, of "PyInt 1024"]
  obtain outs g' where
    o: "decompress_calls gunzip_step (PyInt 16) 3
          (StreamGunZip_init zlib_decompressobj (gz_a @ gz_b) (PyInt 1024)) = (Inr outs, g')"
       "concat outs = [97]" "stream g' = []"
       "dobj g' = ?z1\<lparr>unused_data := unused_data ?z1 @ gz_b\<rparr>"
    and d: "fst (StreamGunZip_decompress gunzip_step PyNone
           (StreamGunZip_init zlib_decompressobj (gz_a @ gz_b) (PyInt 1024))) = Inr [97]"
    by blast
  from o(4) have "unused_data (dobj g') = gz_b" by simp
  with o(1-3) d show ?thesis by blast
qed

end
